theory Spec2Isabelle
  imports Main
begin

section \<open>CampusMate: teacher XP, attendance and marks writes\<close>

text \<open>
  A shallow embedding of the teacher-scoped write routes of the CampusMate backend
  (routes/teachers.js, routes/marks.js): the XP helpers \<open>addTeacherXP\<close> and
  \<open>checkTeacherLevelUp\<close>, the attendance bulk upsert and the marks bulk upsert with its
  XP wrapper.

  Modelling decisions.
  \<^item> Numbers are \<open>int\<close>. A value produced by JavaScript's \<open>Number(...)\<close> on request data
    is an \<open>int option\<close>, \<open>None\<close> standing for \<open>NaN\<close>; fractional numbers are left out.
  \<^item> The relational store is a record of tables. Every \<open>pool.query\<close> / \<open>conn.query\<close> may
    throw: the world carries a fault schedule, one boolean per query still to come,
    \<open>True\<close> meaning that this query throws. An empty schedule is a healthy store.
  \<^item> \<open>console.warn\<close> and \<open>console.error\<close> append to the \<open>console\<close> field;
    \<open>console.log\<close> (informational) and the \<open>updated_at\<close> timestamps are not modelled.
  \<^item> Requests are handled one at a time (no interleaving of two handlers).
\<close>

subsection \<open>Constants\<close>

definition XP_ATTENDANCE :: int where "XP_ATTENDANCE = 10"
definition XP_MARKS :: int where "XP_MARKS = 15"
definition MAX_LEVEL :: int where "MAX_LEVEL = 10"

subsection \<open>The store\<close>

datatype error = StoreError

record teacher_row =
  xp :: int
  level :: int
  next_xp_target :: int

record attendance_row =
  a_student_id :: int
  attendance_date :: string
  a_status :: string
  a_recorded_by :: "int option"

record marks_row =
  m_student_id :: int
  m_batch_id :: int
  m_assessment :: string
  exam_date :: "string option"
  subject :: "string option"
  marks :: "int option"
  semester :: "int option"
  m_recorded_by :: "int option"
  m_max_marks :: "int option"

record world =
  teachers :: "int \<rightharpoonup> teacher_row"
  teacher_batches :: "(int \<times> int) set"
  students :: "int \<rightharpoonup> int option"
  attendance :: "attendance_row list"
  marks_table :: "marks_row list"
  faults :: "bool list"
  console :: "string list"

text \<open>One entry of the fault schedule is consumed by every query.\<close>

definition query_fault :: "world \<Rightarrow> bool \<times> world" where
  "query_fault w = (case faults w of [] \<Rightarrow> (False, w) | b # bs \<Rightarrow> (b, w\<lparr>faults := bs\<rparr>))"

definition console_warn :: "string \<Rightarrow> world \<Rightarrow> world" where
  "console_warn msg w = w\<lparr>console := console w @ [msg]\<rparr>"

definition console_error :: "string \<Rightarrow> world \<Rightarrow> world" where
  "console_error msg w = w\<lparr>console := console w @ [msg]\<rparr>"

subsection \<open>XP helpers\<close>

text \<open>\<open>UPDATE teachers SET xp = xp + ? WHERE id = ?\<close>; the result is \<open>affectedRows\<close>.\<close>

definition update_teacher_xp :: "int \<Rightarrow> int \<Rightarrow> world \<Rightarrow> (error + nat) \<times> world" where
  "update_teacher_xp amount teacherId w =
     (case query_fault w of
        (True, w1) \<Rightarrow> (Inl StoreError, w1)
      | (False, w1) \<Rightarrow>
          (case teachers w1 teacherId of
             None \<Rightarrow> (Inr 0, w1)
           | Some r \<Rightarrow>
               (Inr 1, w1\<lparr>teachers := (teachers w1)(teacherId \<mapsto> r\<lparr>xp := xp r + amount\<rparr>)\<rparr>)))"

text \<open>\<open>SELECT xp, level, next_xp_target FROM teachers WHERE id = ?\<close>\<close>

definition select_teacher_xp :: "int \<Rightarrow> world \<Rightarrow> (error + teacher_row list) \<times> world" where
  "select_teacher_xp teacherId w =
     (case query_fault w of
        (True, w1) \<Rightarrow> (Inl StoreError, w1)
      | (False, w1) \<Rightarrow>
          (Inr (case teachers w1 teacherId of None \<Rightarrow> [] | Some r \<Rightarrow> [r]), w1))"

text \<open>\<open>UPDATE teachers SET xp = ?, level = ?, next_xp_target = ? WHERE id = ?\<close>\<close>

definition update_teacher_level ::
  "int \<Rightarrow> int \<Rightarrow> int \<Rightarrow> int \<Rightarrow> world \<Rightarrow> (error + unit) \<times> world" where
  "update_teacher_level x l n teacherId w =
     (case query_fault w of
        (True, w1) \<Rightarrow> (Inl StoreError, w1)
      | (False, w1) \<Rightarrow>
          (case teachers w1 teacherId of
             None \<Rightarrow> (Inr (), w1)
           | Some r \<Rightarrow>
               (Inr (), w1\<lparr>teachers := (teachers w1)(teacherId \<mapsto>
                              r\<lparr>xp := x, level := l, next_xp_target := n\<rparr>)\<rparr>)))"

text \<open>The level-up loop of \<open>checkTeacherLevelUp\<close>: one UPDATE per level gained.\<close>

function levelUpLoop :: "int \<Rightarrow> int \<Rightarrow> int \<Rightarrow> int \<Rightarrow> world \<Rightarrow> (error + unit) \<times> world" where
  "levelUpLoop teacherId x l n w =
     (if x \<ge> n \<and> l < MAX_LEVEL then
        (let x' = x - n;
             l' = l + 1;
             n' = (if l' < MAX_LEVEL then n + 150 else n)
         in case update_teacher_level x' l' n' teacherId w of
              (Inl e, w1) \<Rightarrow> (Inl e, w1)
            | (Inr u, w1) \<Rightarrow> levelUpLoop teacherId x' l' n' w1)
      else (Inr (), w))"
  by pat_completeness auto
termination
  by (relation "measure (\<lambda>(teacherId, x, l, n, w). nat (MAX_LEVEL - l))") auto

declare levelUpLoop.simps [simp del]

definition checkTeacherLevelUp :: "int \<Rightarrow> world \<Rightarrow> (error + unit) \<times> world" where
  "checkTeacherLevelUp teacherId w =
     (case select_teacher_xp teacherId w of
        (Inl e, w1) \<Rightarrow> (Inl e, w1)
      | (Inr rows, w1) \<Rightarrow>
          (case rows of
             [] \<Rightarrow> (Inr (), w1)
           | r # rest \<Rightarrow>
               if level r \<ge> MAX_LEVEL then (Inr (), w1)
               else levelUpLoop teacherId (xp r) (level r) (next_xp_target r) w1))"

definition addTeacherXP :: "int \<Rightarrow> int \<Rightarrow> world \<Rightarrow> (error + unit) \<times> world" where
  "addTeacherXP teacherId amount w =
     (case update_teacher_xp amount teacherId w of
        (Inl e, w1) \<Rightarrow> (Inl e, console_error ''[XP] addTeacherXP ERROR'' w1)
      | (Inr affected, w1) \<Rightarrow>
          (case checkTeacherLevelUp teacherId w1 of
             (Inl e, w2) \<Rightarrow> (Inl e, console_error ''[XP] addTeacherXP ERROR'' w2)
           | (Inr u, w2) \<Rightarrow> (Inr (), w2)))"

subsection \<open>The XP transition as the specification words it\<close>

text \<open>
  The specification's state machine on \<open>(xp, level, next_xp_target)\<close>: add the amount,
  then, while \<open>level < 10\<close> and \<open>xp \<ge> next_xp_target\<close>, subtract the target, increment the
  level and raise the target by 150 unless the new level is 10.
\<close>

function spec_level_loop :: "teacher_row \<Rightarrow> teacher_row" where
  "spec_level_loop r =
     (if level r < 10 \<and> xp r \<ge> next_xp_target r then
        spec_level_loop
          \<lparr>xp = xp r - next_xp_target r,
           level = level r + 1,
           next_xp_target = (if level r + 1 < 10 then next_xp_target r + 150
                             else next_xp_target r)\<rparr>
      else r)"
  by pat_completeness auto
termination
  by (relation "measure (\<lambda>r. nat (10 - level r))") auto

declare spec_level_loop.simps [simp del]

definition spec_award :: "int \<Rightarrow> teacher_row \<Rightarrow> teacher_row" where
  "spec_award amount r = spec_level_loop (r\<lparr>xp := xp r + amount\<rparr>)"

text \<open>The XP helpers read and write the \<open>teachers\<close> table only.\<close>

definition xp_frame :: "world \<Rightarrow> world \<Rightarrow> bool" where
  "xp_frame w w' =
     (teacher_batches w' = teacher_batches w \<and> students w' = students w \<and>
      attendance w' = attendance w \<and> marks_table w' = marks_table w)"

text \<open>A run of awards; a failed award is caught by its caller, the next one still runs.\<close>

fun award_all :: "(int \<times> int) list \<Rightarrow> world \<Rightarrow> world" where
  "award_all [] w = w"
| "award_all ((teacherId, amount) # rest) w = award_all rest (snd (addTeacherXP teacherId amount w))"

subsection \<open>Requests and responses\<close>

text \<open>
  \<open>req.user\<close> is set by the authentication middleware (\<open>{id, role}\<close> from the token);
  the handlers guard every use with \<open>user && ...\<close>, so it is an option here. Path
  parameters are taken after \<open>Number(...)\<close>, for numeric path segments.
\<close>

record user =
  u_id :: int
  role :: string

definition isAdmin :: "user option \<Rightarrow> bool" where
  "isAdmin usr = (case usr of None \<Rightarrow> False | Some u \<Rightarrow> role u = ''admin'')"

definition isSelf :: "user option \<Rightarrow> int \<Rightarrow> bool" where
  "isSelf usr i = (case usr of None \<Rightarrow> False | Some u \<Rightarrow> u_id u = i)"

record response =
  status_code :: nat
  message :: string
  resp_fields :: "(string \<times> string) option"
  count :: "nat option"

definition json :: "nat \<Rightarrow> string \<Rightarrow> response" where
  "json c m = \<lparr>status_code = c, message = m, resp_fields = None, count = None\<rparr>"

definition validation_failed :: "string \<Rightarrow> string \<Rightarrow> response" where
  "validation_failed field msg =
     \<lparr>status_code = 400, message = ''Validation failed'', resp_fields = Some (field, msg), count = None\<rparr>"

definition saved :: "string \<Rightarrow> nat \<Rightarrow> response" where
  "saved m n = \<lparr>status_code = 200, message = m, resp_fields = None, count = Some n\<rparr>"

text \<open>
  One attendance record of the body: \<open>student_id\<close> is \<open>Number(r.student_id)\<close>
  (\<open>None\<close> for \<open>NaN\<close>), \<open>status\<close> is \<open>String(r.status)\<close>.
\<close>

record att_record =
  student_id :: "int option"
  status :: string

text \<open>
  The attendance body: \<open>date\<close> absent is \<open>None\<close>; \<open>batch_id\<close> absent is \<open>None\<close>;
  \<open>records\<close> is \<open>None\<close> when it is not an array.
\<close>

record att_body =
  date :: "string option"
  batch_id :: "int option"
  records :: "att_record list option"

subsection \<open>Date validation\<close>

definition is_digit :: "char \<Rightarrow> bool" where
  "is_digit c = (c \<in> set ''0123456789'')"

text \<open>The regular expression \<open>/^\d{4}-\d{2}-\d{2}$/\<close>.\<close>

definition matches_ymd :: "string \<Rightarrow> bool" where
  "matches_ymd d =
     (length d = 10 \<and> list_all is_digit (take 4 d) \<and> d ! 4 = CHR ''-'' \<and>
      list_all is_digit (take 2 (drop 5 d)) \<and> d ! 7 = CHR ''-'' \<and>
      list_all is_digit (drop 8 d))"

text \<open>
  \<open>isValidDateString\<close>: the regular expression, and \<open>new Date(d).getTime()\<close> is not
  \<open>NaN\<close>. What the platform's \<open>Date\<close> constructor accepts is the parameter
  \<open>date_parses\<close>.
\<close>

definition isValidDateString :: "(string \<Rightarrow> bool) \<Rightarrow> string \<Rightarrow> bool" where
  "isValidDateString date_parses d = (matches_ymd d \<and> date_parses d)"

subsection \<open>Store operations of the attendance route\<close>

text \<open>\<open>SELECT 1 FROM teacher_batches WHERE teacher_id = ? AND batch_id = ? LIMIT 1\<close>\<close>

definition teacherHasBatch :: "int \<Rightarrow> int \<Rightarrow> world \<Rightarrow> (error + bool) \<times> world" where
  "teacherHasBatch teacherId batchId w =
     (case query_fault w of
        (True, w1) \<Rightarrow> (Inl StoreError, w1)
      | (False, w1) \<Rightarrow> (Inr ((teacherId, batchId) \<in> teacher_batches w1), w1))"

text \<open>\<open>SELECT id FROM students WHERE id IN (?) AND batch_id = ?\<close>\<close>

definition select_students_in_batch ::
  "int list \<Rightarrow> int \<Rightarrow> world \<Rightarrow> (error + int list) \<times> world" where
  "select_students_in_batch ids batchId w =
     (case query_fault w of
        (True, w1) \<Rightarrow> (Inl StoreError, w1)
      | (False, w1) \<Rightarrow>
          (Inr (filter (\<lambda>i. students w1 i = Some (Some batchId)) (remdups ids)), w1))"

text \<open>
  \<open>INSERT ... ON DUPLICATE KEY UPDATE\<close>, one row at a time: a row whose unique key is
  already in the table is updated in place by \<open>on_dup\<close>, any other row is appended.
\<close>

fun upsert :: "('r \<Rightarrow> 'k) \<Rightarrow> ('r \<Rightarrow> 'r \<Rightarrow> 'r) \<Rightarrow> 'r \<Rightarrow> 'r list \<Rightarrow> 'r list" where
  "upsert key on_dup new [] = [new]"
| "upsert key on_dup new (r # rs) =
     (if key r = key new then on_dup r new # rs else r # upsert key on_dup new rs)"

text \<open>
  Modelled from the spec: the table definitions are not part of the sources; the unique
  key of \<open>attendance\<close> is (student, date), as the data model of the specification says.
\<close>

definition attendance_key :: "attendance_row \<Rightarrow> int \<times> string" where
  "attendance_key r = (a_student_id r, attendance_date r)"

text \<open>\<open>ON DUPLICATE KEY UPDATE status = VALUES(status), recorded_by = VALUES(recorded_by)\<close>\<close>

definition attendance_on_dup :: "attendance_row \<Rightarrow> attendance_row \<Rightarrow> attendance_row" where
  "attendance_on_dup old new = old\<lparr>a_status := a_status new, a_recorded_by := a_recorded_by new\<rparr>"

text \<open>
  One tuple of the \<open>values\<close> array: \<open>(sid, date, status, recorded_by)\<close>. The date
  string has passed \<open>isValidDateString\<close> and \<open>DATE(?)\<close> keeps it as it is. A \<open>NaN\<close>
  student id is not a value the store accepts: the statement fails as a whole.
\<close>

type_synonym att_value = "int option \<times> string \<times> string \<times> int option"

definition value_row :: "att_value \<Rightarrow> attendance_row option" where
  "value_row v =
     (case v of (sid, d, st, rb) \<Rightarrow>
        map_option (\<lambda>n. \<lparr>a_student_id = n, attendance_date = d, a_status = st,
                          a_recorded_by = rb\<rparr>) sid)"

definition insert_attendance :: "att_value list \<Rightarrow> world \<Rightarrow> (error + unit) \<times> world" where
  "insert_attendance vals w =
     (case query_fault w of
        (True, w1) \<Rightarrow> (Inl StoreError, w1)
      | (False, w1) \<Rightarrow>
          (case those (map value_row vals) of
             None \<Rightarrow> (Inl StoreError, w1)
           | Some rows \<Rightarrow>
               (Inr (), w1\<lparr>attendance :=
                             fold (upsert attendance_key attendance_on_dup) rows (attendance w1)\<rparr>)))"

subsection \<open>POST /api/teachers/:id/attendance\<close>

definition truthy_ids :: "int option list \<Rightarrow> int list" where
  "truthy_ids xs = concat (map (\<lambda>x. case x of None \<Rightarrow> [] | Some n \<Rightarrow> if n = 0 then [] else [n]) xs)"

definition recorder :: "user option \<Rightarrow> int option" where
  "recorder usr = (case usr of None \<Rightarrow> None | Some u \<Rightarrow> if u_id u \<noteq> 0 then Some (u_id u) else None)"

definition build_values :: "user option \<Rightarrow> string \<Rightarrow> att_record list \<Rightarrow> att_value list" where
  "build_values usr d recs =
     map (\<lambda>r. (student_id r, d, if status r = ''Present'' then ''Present'' else ''Absent'',
               recorder usr)) recs"

text \<open>The handler from the comment "validate student ids belong to batch" on.\<close>

definition attendance_write ::
  "int \<Rightarrow> user option \<Rightarrow> string \<Rightarrow> int \<Rightarrow> att_record list \<Rightarrow> world \<Rightarrow> response \<times> world" where
  "attendance_write tid usr d b recs w =
     (let studentIds = truthy_ids (map student_id recs) in
      if studentIds = [] then (validation_failed ''records'' ''student_id required'', w)
      else
        case select_students_in_batch studentIds b w of
          (Inl e, w1) \<Rightarrow>
            (json 500 ''Server error'', console_error ''POST /teachers/:id/attendance'' w1)
        | (Inr found, w1) \<Rightarrow>
            (let invalids = filter (\<lambda>sid. sid \<notin> set found) studentIds in
             if invalids \<noteq> [] then
               (validation_failed ''records'' ''Some student(s) not in selected batch'', w1)
             else
               (let vals = build_values usr d recs in
                if vals = [] then (validation_failed ''records'' ''No valid records'', w1)
                else
                  case insert_attendance vals w1 of
                    (Inl e, w2) \<Rightarrow>
                      (json 500 ''Server error'',
                       console_error ''POST /teachers/:id/attendance'' w2)
                  | (Inr u, w2) \<Rightarrow>
                      (case addTeacherXP tid XP_ATTENDANCE w2 of
                         (Inl e, w3) \<Rightarrow>
                           (saved ''Saved'' (length recs),
                            console_warn ''XP update (attendance) failed:'' w3)
                       | (Inr u', w3) \<Rightarrow> (saved ''Saved'' (length recs), w3)))))"

definition post_attendance ::
  "(string \<Rightarrow> bool) \<Rightarrow> int \<Rightarrow> user option \<Rightarrow> att_body \<Rightarrow> world \<Rightarrow> response \<times> world" where
  "post_attendance date_parses tid usr body w =
     (case date body of
        None \<Rightarrow> (validation_failed ''date'' ''Invalid date'', w)
      | Some d \<Rightarrow>
          if d = [] \<or> \<not> isValidDateString date_parses d then
            (validation_failed ''date'' ''Invalid date'', w)
          else
            (case batch_id body of
               None \<Rightarrow> (validation_failed ''batch_id'' ''batch_id required'', w)
             | Some b \<Rightarrow>
                 if b = 0 then (validation_failed ''batch_id'' ''batch_id required'', w)
                 else
                   (case records body of
                      None \<Rightarrow>
                        (validation_failed ''records'' ''records must be non-empty array'', w)
                    | Some recs \<Rightarrow>
                        if recs = [] then
                          (validation_failed ''records'' ''records must be non-empty array'', w)
                        else if \<not> isAdmin usr \<and> \<not> isSelf usr tid then
                          (json 403 ''Forbidden'', w)
                        else if \<not> isAdmin usr then
                          (case teacherHasBatch tid b w of
                             (Inl e, w1) \<Rightarrow>
                               (json 500 ''Server error'',
                                console_error ''POST /teachers/:id/attendance'' w1)
                           | (Inr ok, w1) \<Rightarrow>
                               if \<not> ok then (json 403 ''Forbidden: not assigned to batch'', w1)
                               else attendance_write tid usr d b recs w1)
                        else attendance_write tid usr d b recs w)))"

subsection \<open>routes/marks.js: POST /api/marks\<close>

text \<open>
  The pool is put into \<open>app.locals.db\<close> when the server starts (server.js), so the
  handler's first branch ("DB not configured") is never taken and is left out. The
  \<open>error\<close> property of the 500 response (the text of the exception) is left out too.
\<close>

text \<open>
  One marks record of the body, after the handler's conversions: \<open>mr_student_id\<close> is
  \<open>Number(r.student_id || 0)\<close> (\<open>None\<close> for \<open>NaN\<close>); the other fields are \<open>None\<close> for
  \<open>null\<close> or absent.
\<close>

record marks_record =
  mr_student_id :: "int option"
  mr_subject :: "string option"
  mr_marks :: "int option"
  mr_semester :: "int option"
  mr_recorded_by :: "int option"

record marks_body =
  mb_date :: "string option"
  mb_batch_id :: "int option"
  mb_assessment :: "string option"
  mb_max_marks :: "int option"
  mb_records :: "marks_record list option"

record payload =
  p_date :: "string option"
  p_batch_id :: "int option"
  p_assessment :: "string option"
  p_max_marks :: "int option"
  p_records :: "marks_record list"

definition buildPayload :: "marks_body \<Rightarrow> payload" where
  "buildPayload body =
     \<lparr>p_date = (case mb_date body of None \<Rightarrow> None | Some d \<Rightarrow> if d = [] then None else Some d),
      p_batch_id = mb_batch_id body,
      p_assessment =
        (case mb_assessment body of None \<Rightarrow> None | Some a \<Rightarrow> if a = [] then None else Some a),
      p_max_marks = mb_max_marks body,
      p_records = (case mb_records body of None \<Rightarrow> [] | Some rs \<Rightarrow> rs)\<rparr>"

text \<open>
  Modelled from the spec: the table definitions are not part of the sources; the unique
  key of \<open>marks\<close> is (student, batch, assessment), as the upsert contract of the
  specification says.
\<close>

definition marks_key :: "marks_row \<Rightarrow> int \<times> int \<times> string" where
  "marks_key r = (m_student_id r, m_batch_id r, m_assessment r)"

definition marks_on_dup :: "marks_row \<Rightarrow> marks_row \<Rightarrow> marks_row" where
  "marks_on_dup old new =
     old\<lparr>subject := subject new, marks := marks new, semester := semester new,
         m_recorded_by := m_recorded_by new, m_max_marks := m_max_marks new\<rparr>"

text \<open>\<open>getConnection\<close>, \<open>beginTransaction\<close> and \<open>commit\<close>: calls that may throw.\<close>

definition store_call :: "world \<Rightarrow> (error + unit) \<times> world" where
  "store_call w =
     (case query_fault w of (True, w1) \<Rightarrow> (Inl StoreError, w1) | (False, w1) \<Rightarrow> (Inr (), w1))"

definition upsert_marks :: "marks_row \<Rightarrow> world \<Rightarrow> (error + unit) \<times> world" where
  "upsert_marks row w =
     (case query_fault w of
        (True, w1) \<Rightarrow> (Inl StoreError, w1)
      | (False, w1) \<Rightarrow>
          (Inr (), w1\<lparr>marks_table := upsert marks_key marks_on_dup row (marks_table w1)\<rparr>))"

text \<open>
  \<open>conn.rollback()\<close>: the rows written since \<open>beginTransaction\<close> are discarded, whether
  or not the call itself reports an error.
\<close>

definition rollback :: "marks_row list \<Rightarrow> world \<Rightarrow> (error + unit) \<times> world" where
  "rollback snapshot w =
     (case query_fault w of
        (True, w1) \<Rightarrow> (Inl StoreError, w1\<lparr>marks_table := snapshot\<rparr>)
      | (False, w1) \<Rightarrow> (Inr (), w1\<lparr>marks_table := snapshot\<rparr>))"

datatype loop_end = Completed | NoStudentId

fun marks_loop ::
  "int \<Rightarrow> string \<Rightarrow> string option \<Rightarrow> int option \<Rightarrow> marks_record list \<Rightarrow> world
     \<Rightarrow> (error + loop_end) \<times> world" where
  "marks_loop b a d mx [] w = (Inr Completed, w)"
| "marks_loop b a d mx (r # rs) w =
     (case mr_student_id r of
        None \<Rightarrow> (Inr NoStudentId, w)
      | Some sid \<Rightarrow>
          if sid = 0 then (Inr NoStudentId, w)
          else
            (case upsert_marks
                    \<lparr>m_student_id = sid, m_batch_id = b, m_assessment = a, exam_date = d,
                     subject = mr_subject r, marks = mr_marks r, semester = mr_semester r,
                     m_recorded_by = mr_recorded_by r, m_max_marks = mx\<rparr> w of
               (Inl e, w1) \<Rightarrow> (Inl e, w1)
             | (Inr u, w1) \<Rightarrow> marks_loop b a d mx rs w1))"

text \<open>The \<open>catch\<close> block: rollback with its own error swallowed, log, 500.\<close>

definition marks_failure :: "marks_row list \<Rightarrow> world \<Rightarrow> response \<times> world" where
  "marks_failure snapshot w =
     (json 500 ''Database error'', console_error ''marks POST error'' (snd (rollback snapshot w)))"

definition marks_transaction :: "int \<Rightarrow> string \<Rightarrow> payload \<Rightarrow> world \<Rightarrow> response \<times> world" where
  "marks_transaction b a p w =
     (case store_call w of
        (Inl e, w1) \<Rightarrow> (json 500 ''Database error'', console_error ''marks POST error'' w1)
      | (Inr u, w1) \<Rightarrow>
          (let snapshot = marks_table w1 in
           case store_call w1 of
             (Inl e, w2) \<Rightarrow> marks_failure snapshot w2
           | (Inr u', w2) \<Rightarrow>
               (case marks_loop b a (p_date p) (p_max_marks p) (p_records p) w2 of
                  (Inl e, w3) \<Rightarrow> marks_failure snapshot w3
                | (Inr NoStudentId, w3) \<Rightarrow>
                    (case rollback snapshot w3 of
                       (Inl e, w4) \<Rightarrow> marks_failure snapshot w4
                     | (Inr u'', w4) \<Rightarrow> (json 400 ''Each record must include student_id'', w4))
                | (Inr Completed, w3) \<Rightarrow>
                    (case store_call w3 of
                       (Inl e, w4) \<Rightarrow> marks_failure snapshot w4
                     | (Inr u'', w4) \<Rightarrow>
                         (saved ''Marks saved'' (length (p_records p)), w4)))))"

definition post_marks :: "marks_body \<Rightarrow> world \<Rightarrow> response \<times> world" where
  "post_marks body w =
     (let p = buildPayload body in
      case p_batch_id p of
        None \<Rightarrow> (json 400 ''batch_id and assessment are required'', w)
      | Some b \<Rightarrow>
          if b = 0 then (json 400 ''batch_id and assessment are required'', w)
          else
            (case p_assessment p of
               None \<Rightarrow> (json 400 ''batch_id and assessment are required'', w)
             | Some a \<Rightarrow>
                 if p_records p = [] then (json 400 ''No records provided'', w)
                 else marks_transaction b a p w))"

subsection \<open>POST /api/teachers/:tid/marks\<close>

definition lower_char :: "char \<Rightarrow> char" where
  "lower_char c =
     (case map_of (zip ''ABCDEFGHIJKLMNOPQRSTUVWXYZ'' ''abcdefghijklmnopqrstuvwxyz'') c of
        None \<Rightarrow> c
      | Some l \<Rightarrow> l)"

fun has_infix :: "string \<Rightarrow> string \<Rightarrow> bool" where
  "has_infix pat [] = (pat = [])"
| "has_infix pat (c # cs) = (take (length pat) (c # cs) = pat \<or> has_infix pat cs)"

text \<open>
  The wrapped \<open>res.json\<close>: XP is awarded when the message of the body matches
  \<open>/mark|save|saved|success/i\<close>. The responses of the marks router carry no \<open>msg\<close>,
  \<open>status\<close>, \<open>ok\<close> or \<open>success\<close> property.
\<close>

definition xp_trigger :: "response \<Rightarrow> bool" where
  "xp_trigger body =
     (let m = map lower_char (message body) in
      message body \<noteq> [] \<and>
      (has_infix ''mark'' m \<or> has_infix ''save'' m \<or> has_infix ''saved'' m \<or> has_infix ''success'' m))"

text \<open>
  The route runs behind the authentication middleware, so an acting user is at hand,
  but the handler never reads \<open>req.user\<close>.
\<close>

definition post_teacher_marks ::
  "int \<Rightarrow> user option \<Rightarrow> marks_body \<Rightarrow> world \<Rightarrow> response \<times> world" where
  "post_teacher_marks tid usr body w =
     (let body' = body\<lparr>mb_records :=
                    map_option (map (\<lambda>r. r\<lparr>mr_recorded_by := Some tid\<rparr>)) (mb_records body)\<rparr>
      in case post_marks body' w of
           (resp, w1) \<Rightarrow>
             if xp_trigger resp then
               (case addTeacherXP tid XP_MARKS w1 of
                  (Inl e, w2) \<Rightarrow> (resp, console_warn ''[XP] failed to award marks XP:'' w2)
                | (Inr u, w2) \<Rightarrow> (resp, w2))
             else (resp, w1))"

subsection \<open>Notions used to state the properties\<close>

text \<open>The permission check of the attendance route, as a predicate.\<close>

definition authorized :: "world \<Rightarrow> user option \<Rightarrow> int \<Rightarrow> int \<Rightarrow> bool" where
  "authorized w usr tid b = (isAdmin usr \<or> (isSelf usr tid \<and> (tid, b) \<in> teacher_batches w))"

text \<open>A body that passes the three shape checks at the head of the attendance route.\<close>

definition well_formed :: "(string \<Rightarrow> bool) \<Rightarrow> string \<Rightarrow> int \<Rightarrow> att_record list \<Rightarrow> bool" where
  "well_formed date_parses d b recs =
     (d \<noteq> [] \<and> isValidDateString date_parses d \<and> b \<noteq> 0 \<and> recs \<noteq> [])"

text \<open>A record that names (by a non-zero number) a student of batch \<open>b\<close>.\<close>

definition in_batch :: "world \<Rightarrow> int \<Rightarrow> att_record \<Rightarrow> bool" where
  "in_batch w b r =
     (case student_id r of None \<Rightarrow> False | Some n \<Rightarrow> n \<noteq> 0 \<and> students w n = Some (Some b))"

text \<open>A record that names a student who is not in batch \<open>b\<close>.\<close>

definition outside_batch :: "world \<Rightarrow> int \<Rightarrow> att_record \<Rightarrow> bool" where
  "outside_batch w b r =
     (case student_id r of None \<Rightarrow> False | Some n \<Rightarrow> n \<noteq> 0 \<and> students w n \<noteq> Some (Some b))"

definition sid_of :: "att_record \<Rightarrow> int" where
  "sid_of r = (case student_id r of None \<Rightarrow> 0 | Some n \<Rightarrow> n)"

text \<open>The row that the INSERT statement carries for a record with a numeric student id.\<close>

definition att_row :: "user option \<Rightarrow> string \<Rightarrow> att_record \<Rightarrow> attendance_row" where
  "att_row usr d r =
     \<lparr>a_student_id = sid_of r, attendance_date = d,
      a_status = (if status r = ''Present'' then ''Present'' else ''Absent''),
      a_recorded_by = recorder usr\<rparr>"

text \<open>
  The number of queries the attendance route issues up to and including the INSERT
  (the assignment lookup is skipped for an admin), and the world right after them.
\<close>

definition queries_to_insert :: "user option \<Rightarrow> nat" where
  "queries_to_insert usr = (if isAdmin usr then 2 else 3)"

definition after_insert :: "user option \<Rightarrow> string \<Rightarrow> att_record list \<Rightarrow> world \<Rightarrow> world" where
  "after_insert usr d recs w =
     w\<lparr>faults := drop (queries_to_insert usr) (faults w),
       attendance := fold (upsert attendance_key attendance_on_dup)
                          (map (att_row usr d) recs) (attendance w)\<rparr>"

text \<open>A body that carries a date, a batch id and a records array.\<close>

abbreviation att_request :: "string \<Rightarrow> int \<Rightarrow> att_record list \<Rightarrow> att_body" where
  "att_request d b recs \<equiv> \<lparr>date = Some d, batch_id = Some b, records = Some recs\<rparr>"

text \<open>The effect of one award on the \<open>teachers\<close> table, in the specification's words.\<close>

definition xp_awarded :: "int \<Rightarrow> int \<Rightarrow> (int \<rightharpoonup> teacher_row) \<Rightarrow> (int \<rightharpoonup> teacher_row)" where
  "xp_awarded t amount ts = (case ts t of None \<Rightarrow> ts | Some r \<Rightarrow> ts(t \<mapsto> spec_award amount r))"

text \<open>The number of rows of a table that carry one of the submitted keys.\<close>

definition rows_touched :: "('r \<Rightarrow> 'k) \<Rightarrow> 'k list \<Rightarrow> 'r list \<Rightarrow> nat" where
  "rows_touched key ks table = length (filter (\<lambda>r. key r \<in> set ks) table)"

text \<open>A marks body that carries every field.\<close>

abbreviation marks_request ::
  "string option \<Rightarrow> int \<Rightarrow> string \<Rightarrow> int option \<Rightarrow> marks_record list \<Rightarrow> marks_body" where
  "marks_request dt b a mx recs \<equiv>
     \<lparr>mb_date = dt, mb_batch_id = Some b, mb_assessment = Some a, mb_max_marks = mx,
      mb_records = Some recs\<rparr>"

text \<open>The row that the marks loop upserts for a record with a numeric student id.\<close>

definition mr_sid :: "marks_record \<Rightarrow> int" where
  "mr_sid r = (case mr_student_id r of None \<Rightarrow> 0 | Some n \<Rightarrow> n)"

definition marks_row_of ::
  "int \<Rightarrow> string \<Rightarrow> string option \<Rightarrow> int option \<Rightarrow> marks_record \<Rightarrow> marks_row" where
  "marks_row_of b a d mx r =
     \<lparr>m_student_id = mr_sid r,
      m_batch_id = b, m_assessment = a, exam_date = d,
      subject = mr_subject r, marks = mr_marks r, semester = mr_semester r,
      m_recorded_by = mr_recorded_by r, m_max_marks = mx\<rparr>"

text \<open>A marks record whose student id is a non-zero number.\<close>

definition has_student :: "marks_record \<Rightarrow> bool" where
  "has_student r = (case mr_student_id r of None \<Rightarrow> False | Some n \<Rightarrow> n \<noteq> 0)"

text \<open>
  What the marks router leaves alone: the \<open>teachers\<close> and \<open>attendance\<close> tables, and
  the health of a healthy store.
\<close>

definition marks_frame :: "world \<Rightarrow> world \<Rightarrow> bool" where
  "marks_frame w w' =
     (teachers w' = teachers w \<and> attendance w' = attendance w \<and>
      (faults w = [] \<longrightarrow> faults w' = []))"

text \<open>Replacing a row by each later row of the same key, in order.\<close>

definition overwrite_by :: "('r \<Rightarrow> 'k) \<Rightarrow> 'r list \<Rightarrow> 'r \<Rightarrow> 'r" where
  "overwrite_by key rows r = fold (\<lambda>n r. if key r = key n then n else r) rows r"

subsection \<open>A small concrete store\<close>

definition demo_world :: world where
  "demo_world =
     \<lparr>teachers = [1 \<mapsto> \<lparr>xp = 0, level = 1, next_xp_target = 250\<rparr>,
                  2 \<mapsto> \<lparr>xp = 40, level = 10, next_xp_target = 1450\<rparr>],
      teacher_batches = {(1, 7)},
      students = [1 \<mapsto> Some 8, 101 \<mapsto> Some 7, 102 \<mapsto> Some 7, 201 \<mapsto> Some 8],
      attendance = [],
      marks_table = [],
      faults = [],
      console = []\<rparr>"

section \<open>Properties of the XP helpers\<close>

subsection \<open>Queries on a healthy store\<close>

lemma query_fault_healthy: "faults w = [] \<Longrightarrow> query_fault w = (False, w)"
  by (simp add: query_fault_def)

lemma teachers_upd_same:
  "teachers w t = Some r \<Longrightarrow> w\<lparr>teachers := (teachers w)(t \<mapsto> r)\<rparr> = w"
  by (simp add: map_upd_triv)

lemma levelUpLoop_healthy:
  "faults w = [] \<Longrightarrow>
   teachers w t = Some \<lparr>xp = x, level = l, next_xp_target = n\<rparr> \<Longrightarrow>
   levelUpLoop t x l n w =
     (Inr (), w\<lparr>teachers := (teachers w)(t \<mapsto>
                  spec_level_loop \<lparr>xp = x, level = l, next_xp_target = n\<rparr>)\<rparr>)"
proof (induction t x l n w rule: levelUpLoop.induct)
  case (1 t x l n w)
  show ?case
  proof (cases "x \<ge> n \<and> l < MAX_LEVEL")
    case False
    then have "spec_level_loop \<lparr>xp = x, level = l, next_xp_target = n\<rparr>
                 = \<lparr>xp = x, level = l, next_xp_target = n\<rparr>"
      by (subst spec_level_loop.simps) (auto simp: MAX_LEVEL_def)
    with False "1.prems" show ?thesis
      by (subst levelUpLoop.simps) (auto simp: teachers_upd_same)
  next
    case True
    define x' where "x' = x - n"
    define l' where "l' = l + 1"
    define n' where "n' = (if l' < MAX_LEVEL then n + 150 else n)"
    define w1 where "w1 = w\<lparr>teachers := (teachers w)(t \<mapsto> \<lparr>xp = x', level = l', next_xp_target = n'\<rparr>)\<rparr>"
    have upd: "update_teacher_level x' l' n' t w = (Inr (), w1)"
      using "1.prems" by (simp add: update_teacher_level_def query_fault_healthy w1_def)
    have h1: "faults w1 = []" using "1.prems" by (simp add: w1_def)
    have h2: "teachers w1 t = Some \<lparr>xp = x', level = l', next_xp_target = n'\<rparr>"
      by (simp add: w1_def)
    have IH: "levelUpLoop t x' l' n' w1 =
        (Inr (), w1\<lparr>teachers := (teachers w1)(t \<mapsto>
                  spec_level_loop \<lparr>xp = x', level = l', next_xp_target = n'\<rparr>)\<rparr>)"
      by (rule "1.IH"[OF True x'_def l'_def n'_def upd[symmetric] refl h1 h2])
    have sp: "spec_level_loop \<lparr>xp = x, level = l, next_xp_target = n\<rparr>
            = spec_level_loop \<lparr>xp = x', level = l', next_xp_target = n'\<rparr>"
      using True by (subst spec_level_loop.simps) (simp add: MAX_LEVEL_def x'_def l'_def n'_def)
    have "levelUpLoop t x l n w = levelUpLoop t x' l' n' w1"
      using True upd by (subst levelUpLoop.simps) (simp add: x'_def l'_def n'_def Let_def)
    moreover have "w1\<lparr>teachers := (teachers w1)(t \<mapsto> v)\<rparr>
                 = w\<lparr>teachers := (teachers w)(t \<mapsto> v)\<rparr>" for v
      unfolding w1_def by simp
    ultimately show ?thesis using IH sp by (simp only:)
  qed
qed

lemma spec_level_loop_stop:
  "\<not> (level r < 10 \<and> xp r \<ge> next_xp_target r) \<Longrightarrow> spec_level_loop r = r"
  by (subst spec_level_loop.simps) auto

lemma addTeacherXP_healthy:
  assumes h: "faults w = []" and r: "teachers w t = Some r"
  shows "addTeacherXP t amount w =
           (Inr (), w\<lparr>teachers := (teachers w)(t \<mapsto> spec_award amount r)\<rparr>)"
proof -
  define r1 where "r1 = r\<lparr>xp := xp r + amount\<rparr>"
  define w1 where "w1 = w\<lparr>teachers := (teachers w)(t \<mapsto> r1)\<rparr>"
  have u: "update_teacher_xp amount t w = (Inr 1, w1)"
    using h r by (simp add: update_teacher_xp_def query_fault_healthy w1_def r1_def)
  have h1: "faults w1 = []" using h by (simp add: w1_def)
  have t1: "teachers w1 t = Some r1" by (simp add: w1_def)
  have s: "select_teacher_xp t w1 = (Inr [r1], w1)"
    using h1 t1 by (simp add: select_teacher_xp_def query_fault_healthy)
  have bk: "w1\<lparr>teachers := (teachers w1)(t \<mapsto> v)\<rparr>
                 = w\<lparr>teachers := (teachers w)(t \<mapsto> v)\<rparr>" for v
    unfolding w1_def by simp
  have c: "checkTeacherLevelUp t w1
             = (Inr (), w1\<lparr>teachers := (teachers w1)(t \<mapsto> spec_level_loop r1)\<rparr>)"
  proof (cases "level r1 \<ge> MAX_LEVEL")
    case True
    then have "spec_level_loop r1 = r1"
      by (intro spec_level_loop_stop) (simp add: MAX_LEVEL_def)
    with True s t1 show ?thesis
      by (simp add: checkTeacherLevelUp_def teachers_upd_same)
  next
    case False
    have eta: "\<lparr>xp = xp r1, level = level r1, next_xp_target = next_xp_target r1\<rparr> = r1"
      by simp
    have "teachers w1 t = Some \<lparr>xp = xp r1, level = level r1, next_xp_target = next_xp_target r1\<rparr>"
      using t1 by simp
    from levelUpLoop_healthy[OF h1 this] False s show ?thesis
      unfolding eta by (simp add: checkTeacherLevelUp_def)
  qed
  have "addTeacherXP t amount w
          = (Inr (), w1\<lparr>teachers := (teachers w1)(t \<mapsto> spec_level_loop r1)\<rparr>)"
    by (simp add: addTeacherXP_def u c)
  then show ?thesis
    by (simp only: bk spec_award_def r1_def)
qed


lemma addTeacherXP_healthy_total:
  assumes "faults w = []"
  shows "addTeacherXP t a w = (Inr (), w\<lparr>teachers := xp_awarded t a (teachers w)\<rparr>)"
proof (cases "teachers w t")
  case None
  then have "addTeacherXP t a w = (Inr (), w)"
    using assms
    by (simp add: addTeacherXP_def update_teacher_xp_def checkTeacherLevelUp_def
                  select_teacher_xp_def query_fault_healthy)
  with None show ?thesis by (simp add: xp_awarded_def)
next
  case (Some r)
  with addTeacherXP_healthy[OF assms Some] show ?thesis by (simp add: xp_awarded_def)
qed

text \<open>
  Claim C1. On a healthy store, awarding \<open>amount\<close> to an existing teacher leaves that
  teacher's row exactly as the specification's transition describes: the amount is
  added to \<open>xp\<close>, and then, while \<open>level < 10\<close> and \<open>xp \<ge> next_xp_target\<close>, the target
  is subtracted, the level is incremented and the target grows by 150 unless the new
  level is 10. Nothing else in the store changes and no error is returned. This holds
  for every level, in particular for levels 1 to 10. From \<open>(0, 1, 250)\<close>, awarding 250
  gives \<open>(0, 2, 400)\<close> and awarding 1000 gives \<open>(350, 3, 550)\<close>.
\<close>

theorem addTeacherXP_follows_spec:
  assumes "faults w = []" and "teachers w t = Some r"
  shows "addTeacherXP t amount w
           = (Inr (), w\<lparr>teachers := (teachers w)(t \<mapsto> spec_award amount r)\<rparr>) \<and>
         (r = \<lparr>xp = 0, level = 1, next_xp_target = 250\<rparr> \<longrightarrow>
            teachers (snd (addTeacherXP t 250 w)) t
              = Some \<lparr>xp = 0, level = 2, next_xp_target = 400\<rparr> \<and>
            teachers (snd (addTeacherXP t 1000 w)) t
              = Some \<lparr>xp = 350, level = 3, next_xp_target = 550\<rparr>)"
proof -
  have a: "spec_award 250 \<lparr>xp = 0, level = 1, next_xp_target = 250\<rparr>
             = \<lparr>xp = 0, level = 2, next_xp_target = 400\<rparr>"
    by (simp add: spec_award_def spec_level_loop.simps)
  have b: "spec_award 1000 \<lparr>xp = 0, level = 1, next_xp_target = 250\<rparr>
             = \<lparr>xp = 350, level = 3, next_xp_target = 550\<rparr>"
    by (simp add: spec_award_def spec_level_loop.simps)
  show ?thesis
    using a b by (simp add: addTeacherXP_healthy[OF assms])
qed

theorem addTeacherXP_follows_spec_witness:
  "faults demo_world = [] \<and>
   teachers demo_world 1 = Some \<lparr>xp = 0, level = 1, next_xp_target = 250\<rparr> \<and>
   teachers (snd (addTeacherXP 1 250 demo_world)) 1
     = Some \<lparr>xp = 0, level = 2, next_xp_target = 400\<rparr> \<and>
   teachers (snd (addTeacherXP 1 1000 demo_world)) 1
     = Some \<lparr>xp = 350, level = 3, next_xp_target = 550\<rparr>"
  using addTeacherXP_follows_spec
          [of demo_world 1 "\<lparr>xp = 0, level = 1, next_xp_target = 250\<rparr>" 0]
  by (simp add: demo_world_def)

subsection \<open>The level cap under any fault schedule\<close>

lemma query_fault_eq:
  "query_fault w = (faults w \<noteq> [] \<and> hd (faults w), w\<lparr>faults := tl (faults w)\<rparr>)"
  by (cases "faults w") (simp_all add: query_fault_def)

lemma row_overwrite:
  "(r::teacher_row)\<lparr>xp := x, level := l, next_xp_target := n\<rparr>
     = \<lparr>xp = x, level = l, next_xp_target = n\<rparr>"
  by (cases r) simp

lemma levelUpLoop_teachers:
  "teachers w t = Some \<lparr>xp = x, level = l, next_xp_target = n\<rparr> \<Longrightarrow>
   \<exists>r'. teachers (snd (levelUpLoop t x l n w)) = (teachers w)(t \<mapsto> r') \<and>
        l \<le> level r' \<and> (l \<le> MAX_LEVEL \<longrightarrow> level r' \<le> MAX_LEVEL)"
proof (induction t x l n w rule: levelUpLoop.induct)
  case (1 t x l n w)
  let ?r = "\<lparr>xp = x, level = l, next_xp_target = n\<rparr>"
  have triv: "teachers w = (teachers w)(t \<mapsto> ?r)"
    using "1.prems" by (simp add: map_upd_triv)
  show ?case
  proof (cases "x \<ge> n \<and> l < MAX_LEVEL")
    case False
    then have "levelUpLoop t x l n w = (Inr (), w)"
      by (subst levelUpLoop.simps) auto
    with triv show ?thesis
      by (intro exI[of _ ?r]) simp
  next
    case True
    define x' where "x' = x - n"
    define l' where "l' = l + 1"
    define n' where "n' = (if l' < MAX_LEVEL then n + 150 else n)"
    obtain res w1 where upd: "update_teacher_level x' l' n' t w = (res, w1)"
      by (cases "update_teacher_level x' l' n' t w")
    have unf: "levelUpLoop t x l n w =
                 (case res of Inl e \<Rightarrow> (Inl e, w1) | Inr u \<Rightarrow> levelUpLoop t x' l' n' w1)"
      using True upd
      by (subst levelUpLoop.simps) (simp add: x'_def l'_def n'_def Let_def split: sum.splits)
    show ?thesis
    proof (cases res)
      case (Inl e)
      then have "teachers w1 = teachers w"
        using upd by (auto simp: update_teacher_level_def query_fault_eq bool.case_eq_if
                           split: if_splits option.splits)
      with Inl unf triv show ?thesis
        by (intro exI[of _ ?r]) simp
    next
      case (Inr u)
      then have t1: "teachers w1 = (teachers w)(t \<mapsto> \<lparr>xp = x', level = l', next_xp_target = n'\<rparr>)"
        using upd "1.prems" by (auto simp: update_teacher_level_def query_fault_eq bool.case_eq_if row_overwrite
                           split: if_splits option.splits)
      then have h2: "teachers w1 t = Some \<lparr>xp = x', level = l', next_xp_target = n'\<rparr>"
        by simp
      from "1.IH"[OF True x'_def l'_def n'_def upd[symmetric] Inr h2]
      obtain r' where r': "teachers (snd (levelUpLoop t x' l' n' w1)) = (teachers w1)(t \<mapsto> r')"
          "l' \<le> level r'" "l' \<le> MAX_LEVEL \<longrightarrow> level r' \<le> MAX_LEVEL"
        by blast
      have "teachers (snd (levelUpLoop t x l n w)) = (teachers w)(t \<mapsto> r')"
        using unf Inr r'(1) t1 by simp
      moreover have "l \<le> level r'" using r'(2) by (simp add: l'_def)
      moreover have "l \<le> MAX_LEVEL \<longrightarrow> level r' \<le> MAX_LEVEL"
        using r'(3) True by (simp add: l'_def)
      ultimately show ?thesis by blast
    qed
  qed
qed

lemma xp_frame_refl: "xp_frame w w"
  by (simp add: xp_frame_def)

lemma xp_frame_trans: "xp_frame w w1 \<Longrightarrow> xp_frame w1 w2 \<Longrightarrow> xp_frame w w2"
  by (simp add: xp_frame_def)

lemma xp_frame_console: "xp_frame w (console_error m w)" "xp_frame w (console_warn m w)"
  by (simp_all add: xp_frame_def console_error_def console_warn_def)

lemma update_teacher_level_frame: "xp_frame w (snd (update_teacher_level x l n t w))"
  by (simp add: update_teacher_level_def query_fault_eq bool.case_eq_if xp_frame_def
           split: option.splits)

lemma levelUpLoop_frame: "xp_frame w (snd (levelUpLoop t x l n w))"
proof (induction t x l n w rule: levelUpLoop.induct)
  case (1 t x l n w)
  show ?case
  proof (cases "x \<ge> n \<and> l < MAX_LEVEL")
    case False
    then have "levelUpLoop t x l n w = (Inr (), w)"
      by (subst levelUpLoop.simps) auto
    then show ?thesis by (simp add: xp_frame_refl)
  next
    case True
    define x' where "x' = x - n"
    define l' where "l' = l + 1"
    define n' where "n' = (if l' < MAX_LEVEL then n + 150 else n)"
    obtain res w1 where upd: "update_teacher_level x' l' n' t w = (res, w1)"
      by (cases "update_teacher_level x' l' n' t w")
    have f1: "xp_frame w w1"
      using update_teacher_level_frame[of w x' l' n' t] upd by simp
    have unf: "levelUpLoop t x l n w =
                 (case res of Inl e \<Rightarrow> (Inl e, w1) | Inr u \<Rightarrow> levelUpLoop t x' l' n' w1)"
      using True upd
      by (subst levelUpLoop.simps) (simp add: x'_def l'_def n'_def Let_def split: sum.splits)
    show ?thesis
    proof (cases res)
      case (Inl e)
      with unf f1 show ?thesis by simp
    next
      case (Inr u)
      from "1.IH"[OF True x'_def l'_def n'_def upd[symmetric] Inr]
      have "xp_frame w1 (snd (levelUpLoop t x' l' n' w1))" .
      with f1 unf Inr show ?thesis by (auto intro: xp_frame_trans)
    qed
  qed
qed

lemma select_teacher_xp_eq:
  "select_teacher_xp t w =
     (if faults w \<noteq> [] \<and> hd (faults w) then Inl StoreError
      else Inr (case teachers w t of None \<Rightarrow> [] | Some r \<Rightarrow> [r]),
      w\<lparr>faults := tl (faults w)\<rparr>)"
  by (simp add: select_teacher_xp_def query_fault_eq bool.case_eq_if)

lemma checkTeacherLevelUp_frame: "xp_frame w (snd (checkTeacherLevelUp t w))"
proof -
  have a: "xp_frame w (w\<lparr>faults := tl (faults w)\<rparr>)" by (simp add: xp_frame_def)
  show ?thesis
    unfolding checkTeacherLevelUp_def select_teacher_xp_eq
    using a xp_frame_trans[OF a levelUpLoop_frame]
    by (auto split: list.splits option.splits)
qed

lemma update_teacher_xp_frame: "xp_frame w (snd (update_teacher_xp a t w))"
  by (simp add: update_teacher_xp_def query_fault_eq bool.case_eq_if xp_frame_def
           split: option.splits)

lemma addTeacherXP_frame: "xp_frame w (snd (addTeacherXP t a w))"
proof -
  obtain res w1 where u: "update_teacher_xp a t w = (res, w1)"
    by (cases "update_teacher_xp a t w")
  have f1: "xp_frame w w1" using update_teacher_xp_frame[of w a t] u by simp
  obtain res2 w2 where c: "checkTeacherLevelUp t w1 = (res2, w2)"
    by (cases "checkTeacherLevelUp t w1")
  have f2: "xp_frame w w2"
    using checkTeacherLevelUp_frame[of w1 t] c f1 by (auto intro: xp_frame_trans)
  show ?thesis
    using f1 f2 xp_frame_console(1)
    by (auto simp: addTeacherXP_def u c split: sum.splits intro: xp_frame_trans)
qed

lemma checkTeacherLevelUp_absent:
  "teachers w t = None \<Longrightarrow> teachers (snd (checkTeacherLevelUp t w)) = teachers w"
  by (simp add: checkTeacherLevelUp_def select_teacher_xp_eq)

lemma checkTeacherLevelUp_present:
  assumes "teachers w t = Some r"
  shows "\<exists>r'. teachers (snd (checkTeacherLevelUp t w)) = (teachers w)(t \<mapsto> r') \<and>
              level r \<le> level r' \<and> (level r \<le> MAX_LEVEL \<longrightarrow> level r' \<le> MAX_LEVEL) \<and>
              (MAX_LEVEL \<le> level r \<longrightarrow> r' = r)"
proof -
  let ?w1 = "w\<lparr>faults := tl (faults w)\<rparr>"
  have triv: "teachers w = (teachers w)(t \<mapsto> r)"
    using assms by (simp add: map_upd_triv)
  show ?thesis
  proof (cases "(faults w \<noteq> [] \<and> hd (faults w)) \<or> MAX_LEVEL \<le> level r")
    case True
    then have "teachers (snd (checkTeacherLevelUp t w)) = teachers w"
      using assms by (auto simp: checkTeacherLevelUp_def select_teacher_xp_eq)
    with triv show ?thesis by (intro exI[of _ r]) simp
  next
    case False
    then have eq: "checkTeacherLevelUp t w
                    = levelUpLoop t (xp r) (level r) (next_xp_target r) ?w1"
      using assms by (auto simp: checkTeacherLevelUp_def select_teacher_xp_eq)
    have "teachers ?w1 t = Some \<lparr>xp = xp r, level = level r, next_xp_target = next_xp_target r\<rparr>"
      using assms by simp
    from levelUpLoop_teachers[OF this] eq False show ?thesis by auto
  qed
qed

lemma addTeacherXP_absent:
  "teachers w t = None \<Longrightarrow> teachers (snd (addTeacherXP t a w)) = teachers w"
proof -
  assume n: "teachers w t = None"
  obtain res w1 where u: "update_teacher_xp a t w = (res, w1)"
    by (cases "update_teacher_xp a t w")
  have t1: "teachers w1 = teachers w"
    using u n by (auto simp: update_teacher_xp_def query_fault_eq bool.case_eq_if split: if_splits)
  then have "teachers (snd (checkTeacherLevelUp t w1)) = teachers w"
    using checkTeacherLevelUp_absent[of w1 t] n by simp
  then show ?thesis
    using t1 by (auto simp: addTeacherXP_def u console_error_def split: sum.splits prod.splits)
qed

lemma addTeacherXP_present:
  assumes "teachers w t = Some r"
  shows "\<exists>r'. teachers (snd (addTeacherXP t a w)) = (teachers w)(t \<mapsto> r') \<and>
              level r \<le> level r' \<and> (level r \<le> MAX_LEVEL \<longrightarrow> level r' \<le> MAX_LEVEL) \<and>
              (MAX_LEVEL \<le> level r \<longrightarrow>
                 level r' = level r \<and> next_xp_target r' = next_xp_target r)"
proof -
  have triv: "teachers w = (teachers w)(t \<mapsto> r)"
    using assms by (simp add: map_upd_triv)
  obtain res w1 where u: "update_teacher_xp a t w = (res, w1)"
    by (cases "update_teacher_xp a t w")
  show ?thesis
  proof (cases res)
    case (Inl e)
    then have "teachers w1 = teachers w"
      using u assms
      by (auto simp: update_teacher_xp_def query_fault_eq bool.case_eq_if split: if_splits)
    then have "teachers (snd (addTeacherXP t a w)) = teachers w"
      using Inl by (simp add: addTeacherXP_def u console_error_def)
    with triv show ?thesis by (intro exI[of _ r]) simp
  next
    case (Inr k)
    define r1 where "r1 = r\<lparr>xp := xp r + a\<rparr>"
    have t1: "teachers w1 = (teachers w)(t \<mapsto> r1)"
      using u assms Inr
      by (auto simp: update_teacher_xp_def query_fault_eq bool.case_eq_if r1_def split: if_splits)
    then have "teachers w1 t = Some r1" by simp
    from checkTeacherLevelUp_present[OF this]
    obtain r' where r': "teachers (snd (checkTeacherLevelUp t w1)) = (teachers w1)(t \<mapsto> r')"
       "level r1 \<le> level r'" "level r1 \<le> MAX_LEVEL \<longrightarrow> level r' \<le> MAX_LEVEL"
       "MAX_LEVEL \<le> level r1 \<longrightarrow> r' = r1"
      by blast
    have "teachers (snd (addTeacherXP t a w)) = teachers (snd (checkTeacherLevelUp t w1))"
      using Inr by (auto simp: addTeacherXP_def u console_error_def split: sum.splits prod.splits)
    then have "teachers (snd (addTeacherXP t a w)) = (teachers w)(t \<mapsto> r')"
      using r'(1) t1 by simp
    moreover have "level r \<le> level r'" using r'(2) by (simp add: r1_def)
    moreover have "level r \<le> MAX_LEVEL \<longrightarrow> level r' \<le> MAX_LEVEL"
      using r'(3) by (simp add: r1_def)
    moreover have "MAX_LEVEL \<le> level r \<longrightarrow>
                 level r' = level r \<and> next_xp_target r' = next_xp_target r"
      using r'(4) by (auto simp: r1_def)
    ultimately show ?thesis by blast
  qed
qed

lemma addTeacherXP_row:
  assumes "teachers w t0 = Some r" "level r \<le> MAX_LEVEL"
  shows "\<exists>r'. teachers (snd (addTeacherXP t a w)) t0 = Some r' \<and> level r' \<le> MAX_LEVEL \<and>
              (level r = MAX_LEVEL \<longrightarrow>
                 level r' = MAX_LEVEL \<and> next_xp_target r' = next_xp_target r)"
proof (cases "teachers w t")
  case None
  then show ?thesis using addTeacherXP_absent[OF None, of a] assms by simp
next
  case (Some rt)
  from addTeacherXP_present[OF Some, of a]
  obtain r' where r': "teachers (snd (addTeacherXP t a w)) = (teachers w)(t \<mapsto> r')"
     "level rt \<le> level r'" "level rt \<le> MAX_LEVEL \<longrightarrow> level r' \<le> MAX_LEVEL"
     "MAX_LEVEL \<le> level rt \<longrightarrow> level r' = level rt \<and> next_xp_target r' = next_xp_target rt"
    by blast
  show ?thesis
  proof (cases "t0 = t")
    case True
    with Some assms r' show ?thesis by auto
  next
    case False
    with assms r'(1) show ?thesis by simp
  qed
qed

lemma award_all_row:
  "teachers w t0 = Some r \<Longrightarrow> level r \<le> MAX_LEVEL \<Longrightarrow>
   \<exists>r'. teachers (award_all awards w) t0 = Some r' \<and> level r' \<le> MAX_LEVEL \<and>
        (level r = MAX_LEVEL \<longrightarrow>
           level r' = MAX_LEVEL \<and> next_xp_target r' = next_xp_target r)"
proof (induction awards arbitrary: w r)
  case Nil
  then show ?case by simp
next
  case (Cons p awards)
  obtain t a where p: "p = (t, a)" by (cases p)
  from addTeacherXP_row[OF Cons.prems, of t a]
  obtain r1 where r1: "teachers (snd (addTeacherXP t a w)) t0 = Some r1" "level r1 \<le> MAX_LEVEL"
    "level r = MAX_LEVEL \<longrightarrow> level r1 = MAX_LEVEL \<and> next_xp_target r1 = next_xp_target r"
    by blast
  from Cons.IH[OF r1(1) r1(2)]
  obtain r' where "teachers (award_all awards (snd (addTeacherXP t a w))) t0 = Some r'"
    "level r' \<le> MAX_LEVEL"
    "level r1 = MAX_LEVEL \<longrightarrow> level r' = MAX_LEVEL \<and> next_xp_target r' = next_xp_target r1"
    by blast
  with r1(3) p show ?case by auto
qed

text \<open>
  Claim C5. Whatever awards are run, to this teacher or to others, and whichever store
  queries fail on the way, a row whose level is at most 10 keeps a level of at most 10;
  a row at level 10 keeps its level and its \<open>next_xp_target\<close>. (Its \<open>xp\<close> still
  grows: 40 becomes 65 after awards of 10 and 15 in the example that follows.)
\<close>

theorem level_never_exceeds_max:
  assumes "teachers w t = Some r" and "level r \<le> MAX_LEVEL"
  shows "\<exists>r'. teachers (award_all awards w) t = Some r' \<and> level r' \<le> MAX_LEVEL \<and>
              (level r = MAX_LEVEL \<longrightarrow>
                 level r' = MAX_LEVEL \<and> next_xp_target r' = next_xp_target r)"
  using award_all_row[OF assms] .

theorem level_never_exceeds_max_witness:
  "teachers demo_world 2 = Some \<lparr>xp = 40, level = 10, next_xp_target = 1450\<rparr> \<and>
   level \<lparr>xp = 40, level = 10, next_xp_target = 1450\<rparr> \<le> MAX_LEVEL \<and>
   (\<exists>r'. teachers (award_all [(2, 10), (1, 1000), (2, 15)] demo_world) 2 = Some r' \<and>
         level r' = MAX_LEVEL \<and> next_xp_target r' = 1450) \<and>
   teachers (award_all [(2, 10), (1, 1000), (2, 15)] demo_world) 2
     = Some \<lparr>xp = 65, level = 10, next_xp_target = 1450\<rparr>"
proof -
  have e: "teachers (award_all [(2, 10), (1, 1000), (2, 15)] demo_world) 2
     = Some \<lparr>xp = 65, level = 10, next_xp_target = 1450\<rparr>"
    by (simp add: addTeacherXP_healthy_total xp_awarded_def spec_award_def
                  spec_level_loop.simps demo_world_def)
  show ?thesis
    using level_never_exceeds_max
          [of demo_world 2 "\<lparr>xp = 40, level = 10, next_xp_target = 1450\<rparr>"
              "[(2, 10), (1, 1000), (2, 15)]"] e
    by (auto simp add: demo_world_def MAX_LEVEL_def)
qed

text \<open>
  Claim C10. Awarding XP to a teacher id that is not in the \<open>teachers\<close> table changes
  no teacher row and no other table, under any fault schedule; the level-up check issues
  its one SELECT and nothing more; and on a healthy store the award returns without an
  error and leaves the whole world as it was.
\<close>

theorem addTeacherXP_unknown_teacher:
  assumes "teachers w t = None"
  shows "teachers (snd (addTeacherXP t amount w)) = teachers w \<and>
         xp_frame w (snd (addTeacherXP t amount w)) \<and>
         snd (checkTeacherLevelUp t w) = w\<lparr>faults := tl (faults w)\<rparr> \<and>
         (faults w = [] \<longrightarrow>
            addTeacherXP t amount w = (Inr (), w) \<and> checkTeacherLevelUp t w = (Inr (), w))"
proof -
  have c: "snd (checkTeacherLevelUp t w) = w\<lparr>faults := tl (faults w)\<rparr>"
    using assms by (simp add: checkTeacherLevelUp_def select_teacher_xp_eq)
  have h: "addTeacherXP t amount w = (Inr (), w) \<and> checkTeacherLevelUp t w = (Inr (), w)"
    if "faults w = []"
    using that assms
    by (simp add: addTeacherXP_def update_teacher_xp_def checkTeacherLevelUp_def
                  select_teacher_xp_def query_fault_healthy)
  show ?thesis
    using addTeacherXP_absent[OF assms] addTeacherXP_frame c h by simp
qed

theorem addTeacherXP_unknown_teacher_witness:
  "teachers demo_world 99 = None \<and>
   addTeacherXP 99 10 demo_world = (Inr (), demo_world) \<and>
   checkTeacherLevelUp 99 demo_world = (Inr (), demo_world)"
  using addTeacherXP_unknown_teacher [of demo_world 99 10]
  by (simp add: demo_world_def)

section \<open>Properties of the upsert\<close>


lemma upsert_keys:
  assumes "\<And>old new. key old = key new \<Longrightarrow> key (f old new) = key old"
  shows "map key (upsert key f n T)
           = (if key n \<in> set (map key T) then map key T else map key T @ [key n])"
  using assms by (induction T) auto

lemma upsert_distinct:
  assumes "\<And>old new. key old = key new \<Longrightarrow> key (f old new) = key old"
      and "distinct (map key T)"
  shows "distinct (map key (upsert key f n T))"
  using assms(2) by (simp add: upsert_keys[of key f, OF assms(1)])

lemma fold_upsert_distinct:
  assumes "\<And>old new. key old = key new \<Longrightarrow> key (f old new) = key old"
  shows "distinct (map key T) \<Longrightarrow> distinct (map key (fold (upsert key f) rows T))"
  by (induction rows arbitrary: T) (simp_all add: upsert_distinct[of key f, OF assms])

lemma fold_upsert_key_set:
  assumes "\<And>old new. key old = key new \<Longrightarrow> key (f old new) = key old"
  shows "set (map key (fold (upsert key f) rows T)) = set (map key T) \<union> key ` set rows"
proof (induction rows arbitrary: T)
  case Nil
  show ?case by simp
next
  case (Cons n rows)
  have "set (map key (upsert key f n T)) = insert (key n) (set (map key T))"
    by (auto simp: upsert_keys[of key f, OF assms])
  with Cons.IH[of "upsert key f n T"] show ?case by auto
qed

lemma upsert_other_rows:
  "r \<in> set T \<Longrightarrow> key r \<noteq> key n \<Longrightarrow> r \<in> set (upsert key f n T)"
  by (induction T) auto

lemma fold_upsert_other_rows:
  "r \<in> set T \<Longrightarrow> key r \<notin> key ` set rows \<Longrightarrow> r \<in> set (fold (upsert key f) rows T)"
  by (induction rows arbitrary: T) (auto intro: upsert_other_rows)

lemma distinct_key_head:
  "key r = k \<Longrightarrow> distinct (map key (r # T)) \<Longrightarrow> \<forall>r' \<in> set T. key r' \<noteq> k"
  by (simp add: image_iff) metis

text \<open>When the update on a duplicate key overwrites every column that is not in the key.\<close>

lemma upsert_replace:
  assumes ow: "\<And>old new. key old = key new \<Longrightarrow> f old new = new"
      and "distinct (map key T)" and "key n \<in> set (map key T)"
  shows "upsert key f n T = map (\<lambda>r. if key r = key n then n else r) T"
  using assms(2,3)
proof (induction T)
  case Nil
  then show ?case by simp
next
  case (Cons r T)
  show ?case
  proof (cases "key r = key n")
    case True
    then have "\<forall>r' \<in> set T. key r' \<noteq> key n" using Cons.prems(1) by (rule distinct_key_head)
    then have "map (\<lambda>r. if key r = key n then n else r) T = T"
      by (induction T) auto
    with True ow show ?thesis by simp
  next
    case False
    with Cons show ?thesis by auto
  qed
qed

lemma upsert_row_filter:
  assumes ow: "\<And>old new. key old = key new \<Longrightarrow> f old new = new"
      and "distinct (map key T)"
  shows "filter (\<lambda>r. key r = key n) (upsert key f n T) = [n]"
  using assms(2)
proof (induction T)
  case Nil
  then show ?case by simp
next
  case (Cons r T)
  show ?case
  proof (cases "key r = key n")
    case True
    then have "\<forall>r' \<in> set T. key r' \<noteq> key n" using Cons.prems by (rule distinct_key_head)
    then have "filter (\<lambda>r. key r = key n) T = []"
      by (induction T) auto
    with True ow show ?thesis by simp
  next
    case False
    with Cons show ?thesis by auto
  qed
qed

lemma overwrite_by_key: "key (overwrite_by key rows r) = key r"
  unfolding overwrite_by_def by (induction rows arbitrary: r) auto

lemma fold_upsert_replace:
  assumes ow: "\<And>old new. key old = key new \<Longrightarrow> f old new = new"
  shows "distinct (map key T) \<Longrightarrow> key ` set rows \<subseteq> set (map key T) \<Longrightarrow>
         fold (upsert key f) rows T = map (overwrite_by key rows) T"
proof (induction rows arbitrary: T)
  case Nil
  then show ?case by (simp add: overwrite_by_def)
next
  case (Cons n rows)
  let ?T1 = "map (\<lambda>r. if key r = key n then n else r) T"
  have kn: "key n \<in> set (map key T)" using Cons.prems(2) by auto
  have u: "upsert key f n T = ?T1"
    using upsert_replace[of key f, OF ow Cons.prems(1) kn] by simp
  have keys: "map key ?T1 = map key T" by (induction T) auto
  have d1: "distinct (map key ?T1)" using Cons.prems(1) by (simp only: keys)
  have s1: "key ` set rows \<subseteq> set (map key ?T1)" using Cons.prems(2) by (simp only: keys) simp
  have "fold (upsert key f) rows ?T1 = map (overwrite_by key rows) ?T1"
    by (rule Cons.IH[OF d1 s1])
  moreover have "overwrite_by key (n # rows) r
                   = overwrite_by key rows (if key r = key n then n else r)" for r
    by (simp add: overwrite_by_def)
  ultimately show ?case
    by (simp add: u comp_def)
qed

lemma upsert_row_cases:
  assumes ow: "\<And>old new. key old = key new \<Longrightarrow> f old new = new"
  shows "distinct (map key T) \<Longrightarrow> r \<in> set (upsert key f n T) \<Longrightarrow>
         r = n \<or> (r \<in> set T \<and> key r \<noteq> key n)"
proof (induction T)
  case Nil
  then show ?case by simp
next
  case (Cons a T)
  show ?case
  proof (cases "key a = key n")
    case True
    then have "\<forall>r' \<in> set T. key r' \<noteq> key n" using Cons.prems(1) by (rule distinct_key_head)
    with True Cons.prems(2) ow show ?thesis by auto
  next
    case False
    with Cons show ?thesis by auto
  qed
qed

lemma overwrite_by_snoc:
  "overwrite_by key (rows @ [n]) r
     = (if key r = key n then n else overwrite_by key rows r)"
  by (simp add: overwrite_by_def overwrite_by_key[unfolded overwrite_by_def])

lemma fold_upsert_rows_fixed:
  assumes ow: "\<And>old new. key old = key new \<Longrightarrow> f old new = new"
      and d: "distinct (map key T)"
  shows "r \<in> set (fold (upsert key f) rows T) \<Longrightarrow> overwrite_by key rows r = r"
proof (induction rows arbitrary: r rule: rev_induct)
  case Nil
  then show ?case by (simp add: overwrite_by_def)
next
  case (snoc n rows)
  from snoc.prems have "r \<in> set (upsert key f n (fold (upsert key f) rows T))" by simp
  moreover have "distinct (map key (fold (upsert key f) rows T))"
    using fold_upsert_distinct[of key f T rows] ow d by simp
  ultimately have "r = n \<or> (r \<in> set (fold (upsert key f) rows T) \<and> key r \<noteq> key n)"
    using upsert_row_cases[of key f, OF ow] by blast
  then show ?case
  proof
    assume "r = n"
    then show ?thesis by (simp add: overwrite_by_snoc)
  next
    assume "r \<in> set (fold (upsert key f) rows T) \<and> key r \<noteq> key n"
    then show ?thesis using snoc.IH by (simp add: overwrite_by_snoc)
  qed
qed

lemma fold_upsert_idem:
  assumes ow: "\<And>old new. key old = key new \<Longrightarrow> f old new = new"
      and d: "distinct (map key T)"
  shows "fold (upsert key f) rows (fold (upsert key f) rows T) = fold (upsert key f) rows T"
proof -
  let ?T1 = "fold (upsert key f) rows T"
  have kp: "\<And>old new. key old = key new \<Longrightarrow> key (f old new) = key old"
    using ow by simp
  have d1: "distinct (map key ?T1)"
    using fold_upsert_distinct[of key f T rows] kp d by simp
  have s1: "key ` set rows \<subseteq> set (map key ?T1)"
    using fold_upsert_key_set[of key f rows T] kp by auto
  have "fold (upsert key f) rows ?T1 = map (overwrite_by key rows) ?T1"
    by (rule fold_upsert_replace[of key f, OF ow d1 s1])
  also have "\<dots> = ?T1"
    using fold_upsert_rows_fixed[of key f T _ rows, OF ow d] by (simp add: map_idI)
  finally show ?thesis .
qed

section \<open>Properties of the attendance route\<close>

subsection \<open>The queries in closed form\<close>

lemma teacherHasBatch_eq:
  "teacherHasBatch t b w =
     (if faults w \<noteq> [] \<and> hd (faults w) then Inl StoreError
      else Inr ((t, b) \<in> teacher_batches w),
      w\<lparr>faults := tl (faults w)\<rparr>)"
  by (simp add: teacherHasBatch_def query_fault_eq bool.case_eq_if)

lemma select_students_in_batch_eq:
  "select_students_in_batch ids b w =
     (if faults w \<noteq> [] \<and> hd (faults w) then Inl StoreError
      else Inr (filter (\<lambda>i. students w i = Some (Some b)) (remdups ids)),
      w\<lparr>faults := tl (faults w)\<rparr>)"
  by (simp add: select_students_in_batch_def query_fault_eq bool.case_eq_if)

lemma insert_attendance_eq:
  "insert_attendance vals w =
     (if faults w \<noteq> [] \<and> hd (faults w) then (Inl StoreError, w\<lparr>faults := tl (faults w)\<rparr>)
      else case those (map value_row vals) of
             None \<Rightarrow> (Inl StoreError, w\<lparr>faults := tl (faults w)\<rparr>)
           | Some rows \<Rightarrow>
               (Inr (), w\<lparr>faults := tl (faults w),
                          attendance := fold (upsert attendance_key attendance_on_dup) rows
                                             (attendance w)\<rparr>))"
  by (simp add: insert_attendance_def query_fault_eq bool.case_eq_if split: option.splits)

lemma post_attendance_shape:
  assumes "well_formed dp d b recs"
  shows "post_attendance dp tid usr \<lparr>date = Some d, batch_id = Some b, records = Some recs\<rparr> w =
     (if \<not> isAdmin usr \<and> \<not> isSelf usr tid then (json 403 ''Forbidden'', w)
      else if \<not> isAdmin usr then
        (case teacherHasBatch tid b w of
           (Inl e, w1) \<Rightarrow>
             (json 500 ''Server error'', console_error ''POST /teachers/:id/attendance'' w1)
         | (Inr ok, w1) \<Rightarrow>
             if \<not> ok then (json 403 ''Forbidden: not assigned to batch'', w1)
             else attendance_write tid usr d b recs w1)
      else attendance_write tid usr d b recs w)"
  using assms by (simp add: post_attendance_def well_formed_def)

lemma truthy_ids_in_batch:
  "list_all (in_batch w b) recs \<Longrightarrow> truthy_ids (map student_id recs) = map sid_of recs"
  by (induction recs) (auto simp: truthy_ids_def in_batch_def sid_of_def split: option.splits)

lemma in_batch_found:
  "list_all (in_batch w b) recs \<Longrightarrow>
   filter (\<lambda>sid. sid \<notin> set (filter (\<lambda>i. students w i = Some (Some b)) (remdups (map sid_of recs))))
          (map sid_of recs) = []"
  by (auto simp: filter_empty_conv list_all_iff in_batch_def sid_of_def split: option.splits)

lemma those_value_rows:
  "list_all (\<lambda>r. student_id r \<noteq> None) recs \<Longrightarrow>
   those (map value_row (build_values usr d recs)) = Some (map (att_row usr d) recs)"
  by (induction recs)
     (auto simp: build_values_def value_row_def att_row_def sid_of_def split: option.splits)

lemma in_batch_numeric:
  "list_all (in_batch w b) recs \<Longrightarrow> list_all (\<lambda>r. student_id r \<noteq> None) recs"
  by (auto simp: list_all_iff in_batch_def split: option.splits)

lemma no_fault_head:
  "True \<notin> set (take (Suc k) fs) \<Longrightarrow> \<not> (fs \<noteq> [] \<and> hd fs) \<and> True \<notin> set (take k (tl fs))"
  by (cases fs) auto

lemma attendance_write_accepts:
  assumes ne: "recs \<noteq> []" and v: "list_all (in_batch w b) recs"
      and f: "True \<notin> set (take 2 (faults w))"
  shows "attendance_write tid usr d b recs w =
     (case addTeacherXP tid XP_ATTENDANCE
             (w\<lparr>faults := tl (tl (faults w)),
                attendance := fold (upsert attendance_key attendance_on_dup)
                                   (map (att_row usr d) recs) (attendance w)\<rparr>) of
        (Inl e, w3) \<Rightarrow>
          (saved ''Saved'' (length recs), console_warn ''XP update (attendance) failed:'' w3)
      | (Inr u, w3) \<Rightarrow> (saved ''Saved'' (length recs), w3))"
proof -
  have f1: "\<not> (faults w \<noteq> [] \<and> hd (faults w))" and f2': "True \<notin> set (take 1 (tl (faults w)))"
    using no_fault_head[of 1 "faults w"] f by (simp_all add: numeral_2_eq_2)
  have f2: "\<not> (tl (faults w) \<noteq> [] \<and> hd (tl (faults w)))"
    using no_fault_head[of 0 "tl (faults w)"] f2' by simp
  have ids: "truthy_ids (map student_id recs) = map sid_of recs"
    by (rule truthy_ids_in_batch[OF v])
  have nonempty: "map sid_of recs \<noteq> []" using ne by simp
  have bv: "build_values usr d recs \<noteq> []" using ne by (simp add: build_values_def)
  have rows: "those (map value_row (build_values usr d recs)) = Some (map (att_row usr d) recs)"
    by (rule those_value_rows[OF in_batch_numeric[OF v]])
  let ?w1 = "w\<lparr>faults := tl (faults w)\<rparr>"
  have sel: "select_students_in_batch (map sid_of recs) b w
               = (Inr (filter (\<lambda>i. students w i = Some (Some b)) (remdups (map sid_of recs))), ?w1)"
    using f1 by (auto simp: select_students_in_batch_eq)
  have ins: "insert_attendance (build_values usr d recs) ?w1
               = (Inr (), w\<lparr>faults := tl (tl (faults w)),
                            attendance := fold (upsert attendance_key attendance_on_dup)
                                               (map (att_row usr d) recs) (attendance w)\<rparr>)"
    using f2 rows by (auto simp: insert_attendance_eq)
  show ?thesis
    unfolding attendance_write_def ids
    using nonempty bv in_batch_found[OF v]
    by (simp add: sel ins Let_def)
qed

lemma in_batch_faults [simp]: "in_batch (w\<lparr>faults := fs\<rparr>) = in_batch w"
  by (intro ext) (simp add: in_batch_def split: option.splits)

lemma tl_tl_drop: "tl (tl xs) = drop 2 xs" "tl (drop 2 xs) = drop 3 xs"
  by (simp_all add: drop_Suc numeral_2_eq_2 numeral_3_eq_3 drop_tl tl_drop)

lemma post_attendance_accepts:
  assumes wf: "well_formed dp d b recs" and au: "authorized w usr tid b"
      and v: "list_all (in_batch w b) recs"
      and f: "True \<notin> set (take (queries_to_insert usr) (faults w))"
  shows "post_attendance dp tid usr \<lparr>date = Some d, batch_id = Some b, records = Some recs\<rparr> w =
     (case addTeacherXP tid XP_ATTENDANCE (after_insert usr d recs w) of
        (Inl e, w3) \<Rightarrow>
          (saved ''Saved'' (length recs), console_warn ''XP update (attendance) failed:'' w3)
      | (Inr u, w3) \<Rightarrow> (saved ''Saved'' (length recs), w3))"
proof (cases "isAdmin usr")
  case True
  have ne: "recs \<noteq> []" using wf by (simp add: well_formed_def)
  have f2: "True \<notin> set (take 2 (faults w))" using f True by (simp add: queries_to_insert_def)
  show ?thesis
    using True attendance_write_accepts[OF ne v f2, of tid usr d]
    by (simp add: post_attendance_shape[OF wf] after_insert_def queries_to_insert_def tl_tl_drop)
next
  case False
  let ?w1 = "w\<lparr>faults := tl (faults w)\<rparr>"
  have ne: "recs \<noteq> []" using wf by (simp add: well_formed_def)
  have self: "isSelf usr tid" and tb: "(tid, b) \<in> teacher_batches w"
    using au False by (simp_all add: authorized_def)
  have f3: "True \<notin> set (take (Suc 2) (faults w))"
    using f False by (simp add: queries_to_insert_def numeral_3_eq_3 numeral_2_eq_2)
  from no_fault_head[OF f3]
  have f1: "\<not> (faults w \<noteq> [] \<and> hd (faults w))" and f2: "True \<notin> set (take 2 (faults ?w1))"
    by simp_all
  have thb: "teacherHasBatch tid b w = (Inr True, ?w1)"
    using f1 tb by (auto simp: teacherHasBatch_eq)
  have v1: "list_all (in_batch ?w1 b) recs" using v by simp
  show ?thesis
    using False self attendance_write_accepts[OF ne v1 f2, of tid usr d]
    by (simp add: post_attendance_shape[OF wf] thb after_insert_def queries_to_insert_def
                  tl_tl_drop)
qed

lemma post_attendance_denied:
  assumes wf: "well_formed dp d b recs" and au: "\<not> authorized w usr tid b"
  shows "xp_frame w (snd (post_attendance dp tid usr
                            \<lparr>date = Some d, batch_id = Some b, records = Some recs\<rparr> w)) \<and>
         teachers (snd (post_attendance dp tid usr
                            \<lparr>date = Some d, batch_id = Some b, records = Some recs\<rparr> w))
           = teachers w \<and>
         (\<not> (faults w \<noteq> [] \<and> hd (faults w)) \<longrightarrow>
            status_code (fst (post_attendance dp tid usr
                            \<lparr>date = Some d, batch_id = Some b, records = Some recs\<rparr> w)) = 403)"
  using au
  by (auto simp: post_attendance_shape[OF wf] authorized_def teacherHasBatch_eq xp_frame_def
                 console_error_def json_def)

lemma set_truthy_ids: "set (truthy_ids xs) = {n. n \<noteq> 0 \<and> Some n \<in> set xs}"
  by (induction xs) (auto simp: truthy_ids_def split: option.splits)

lemma outside_truthy:
  assumes "r \<in> set recs" and "outside_batch w b r"
  shows "sid_of r \<in> set (truthy_ids (map student_id recs))"
proof -
  from assms(2) obtain n where n: "student_id r = Some n" "n \<noteq> 0"
    by (auto simp: outside_batch_def split: option.splits)
  then have "Some n \<in> set (map student_id recs)"
    using assms(1) by (metis image_eqI list.set_map)
  with n show ?thesis by (simp add: set_truthy_ids sid_of_def)
qed

lemma attendance_write_rejects:
  assumes r: "r \<in> set recs" and o: "outside_batch w b r"
  shows "xp_frame w (snd (attendance_write tid usr d b recs w)) \<and>
         teachers (snd (attendance_write tid usr d b recs w)) = teachers w \<and>
         (\<not> (faults w \<noteq> [] \<and> hd (faults w)) \<longrightarrow>
            fst (attendance_write tid usr d b recs w)
              = validation_failed ''records'' ''Some student(s) not in selected batch'')"
proof -
  let ?ids = "truthy_ids (map student_id recs)"
  let ?found = "filter (\<lambda>i. students w i = Some (Some b)) (remdups ?ids)"
  have m: "sid_of r \<in> set ?ids" by (rule outside_truthy[OF r o])
  then have ne: "?ids \<noteq> []" by auto
  have "sid_of r \<notin> set ?found"
    using o by (auto simp: outside_batch_def sid_of_def split: option.splits)
  with m have inv: "filter (\<lambda>sid. sid \<notin> set ?found) ?ids \<noteq> []"
    by (auto simp: filter_empty_conv)
  show ?thesis
    using ne inv
    by (simp add: attendance_write_def select_students_in_batch_eq Let_def xp_frame_def
                  console_error_def)
qed

lemma outside_batch_faults [simp]: "outside_batch (w\<lparr>faults := fs\<rparr>) = outside_batch w"
  by (intro ext) (simp add: outside_batch_def split: option.splits)

lemma after_insert_attendance:
  "attendance (after_insert usr d recs w)
     = fold (upsert attendance_key attendance_on_dup) (map (att_row usr d) recs) (attendance w)"
  by (simp add: after_insert_def)

lemma post_attendance_accepts_attendance:
  assumes wf: "well_formed dp d b recs" and au: "authorized w usr tid b"
      and v: "list_all (in_batch w b) recs"
      and f: "True \<notin> set (take (queries_to_insert usr) (faults w))"
  shows "fst (post_attendance dp tid usr (att_request d b recs) w) = saved ''Saved'' (length recs)"
    and "attendance (snd (post_attendance dp tid usr (att_request d b recs) w))
           = attendance (after_insert usr d recs w)"
proof -
  let ?w2 = "after_insert usr d recs w"
  obtain res w3 where x: "addTeacherXP tid XP_ATTENDANCE ?w2 = (res, w3)"
    by (cases "addTeacherXP tid XP_ATTENDANCE ?w2")
  have "xp_frame ?w2 w3" using addTeacherXP_frame[of ?w2 tid XP_ATTENDANCE] x by simp
  then have a: "attendance w3 = attendance ?w2" by (simp add: xp_frame_def)
  show "fst (post_attendance dp tid usr (att_request d b recs) w) = saved ''Saved'' (length recs)"
    by (simp add: post_attendance_accepts[OF wf au v f] x split: sum.splits)
  show "attendance (snd (post_attendance dp tid usr (att_request d b recs) w))
           = attendance ?w2"
    using a by (simp add: post_attendance_accepts[OF wf au v f] x console_warn_def split: sum.splits)
qed

text \<open>
  What the permission check of the attendance route does. For a body that passes the
  shape checks: a user who is not an admin and whose id differs from the path id, or
  whose path teacher has no assignment for the batch, leaves every table as it was
  under any fault schedule, and on a healthy store the response is 403. The same
  request from an admin, its students being in the batch, is answered \<open>Saved\<close> on a
  healthy store and the rows are upserted, whatever \<open>teacher_batches\<close> holds. The
  check compares ids only: it never looks at the role of a user who is not an admin.
\<close>

lemma attendance_permission_check:
  assumes "well_formed dp d b recs"
  shows "(\<not> isAdmin usr \<and> (\<not> isSelf usr tid \<or> (tid, b) \<notin> teacher_batches w) \<longrightarrow>
            attendance (snd (post_attendance dp tid usr (att_request d b recs) w)) = attendance w \<and>
            xp_frame w (snd (post_attendance dp tid usr (att_request d b recs) w)) \<and>
            teachers (snd (post_attendance dp tid usr (att_request d b recs) w)) = teachers w \<and>
            (faults w = [] \<longrightarrow>
               status_code (fst (post_attendance dp tid usr (att_request d b recs) w)) = 403)) \<and>
         (isAdmin usr \<and> list_all (in_batch w b) recs \<and> faults w = [] \<longrightarrow>
            fst (post_attendance dp tid usr (att_request d b recs) w)
              = saved ''Saved'' (length recs) \<and>
            attendance (snd (post_attendance dp tid usr (att_request d b recs) w))
              = fold (upsert attendance_key attendance_on_dup) (map (att_row usr d) recs)
                     (attendance w))"
proof (intro conjI impI)
  assume a: "\<not> isAdmin usr \<and> (\<not> isSelf usr tid \<or> (tid, b) \<notin> teacher_batches w)"
  then have na: "\<not> authorized w usr tid b" by (auto simp: authorized_def)
  note d = post_attendance_denied[OF assms na]
  show "xp_frame w (snd (post_attendance dp tid usr (att_request d b recs) w))"
    using d by simp
  then show "attendance (snd (post_attendance dp tid usr (att_request d b recs) w)) = attendance w"
    by (simp add: xp_frame_def)
  show "teachers (snd (post_attendance dp tid usr (att_request d b recs) w)) = teachers w"
    using d by simp
  show "status_code (fst (post_attendance dp tid usr (att_request d b recs) w)) = 403"
    if "faults w = []"
    using d that by simp
next
  assume a: "isAdmin usr \<and> list_all (in_batch w b) recs \<and> faults w = []"
  then have au: "authorized w usr tid b" and v: "list_all (in_batch w b) recs"
    and f: "True \<notin> set (take (queries_to_insert usr) (faults w))"
    by (simp_all add: authorized_def)
  show "fst (post_attendance dp tid usr (att_request d b recs) w) = saved ''Saved'' (length recs)"
    by (rule post_attendance_accepts_attendance(1)[OF assms au v f])
  show "attendance (snd (post_attendance dp tid usr (att_request d b recs) w))
              = fold (upsert attendance_key attendance_on_dup) (map (att_row usr d) recs)
                     (attendance w)"
    by (simp add: post_attendance_accepts_attendance(2)[OF assms au v f] after_insert_attendance)
qed

text \<open>
  Claim C3 at a concrete request. The claim asks for a 403 whenever the acting user is
  neither an admin nor the teacher named by the path. A student whose token carries
  id 1 (student ids and teacher ids are separate id spaces) posts attendance to
  \<open>/api/teachers/1/attendance\<close> for batch 7, to which teacher 1 is assigned: \<open>isSelf\<close>
  compares the ids and never reads the role, so the answer is \<open>Saved\<close> and the row is
  written.
\<close>

theorem attendance_written_by_student_token:
  "\<not> isAdmin (Some \<lparr>u_id = 1, role = ''student''\<rparr>) \<and>
   role \<lparr>u_id = 1, role = ''student''\<rparr> \<noteq> ''teacher'' \<and>
   fst (post_attendance (\<lambda>s. True) 1 (Some \<lparr>u_id = 1, role = ''student''\<rparr>)
       (att_request ''2024-03-05'' 7 [\<lparr>student_id = Some 101, status = ''Present''\<rparr>])
       demo_world) = saved ''Saved'' 1 \<and>
   attendance demo_world = [] \<and>
   attendance (snd (post_attendance (\<lambda>s. True) 1 (Some \<lparr>u_id = 1, role = ''student''\<rparr>)
       (att_request ''2024-03-05'' 7 [\<lparr>student_id = Some 101, status = ''Present''\<rparr>])
       demo_world))
     = [\<lparr>a_student_id = 101, attendance_date = ''2024-03-05'', a_status = ''Present'',
         a_recorded_by = Some 1\<rparr>]"
  by (simp add: post_attendance_def attendance_write_def isValidDateString_def matches_ymd_def
                is_digit_def isAdmin_def isSelf_def teacherHasBatch_def
                select_students_in_batch_def insert_attendance_def query_fault_def
                truthy_ids_def build_values_def value_row_def recorder_def saved_def
                addTeacherXP_healthy_total attendance_key_def attendance_on_dup_def
                demo_world_def)

text \<open>
  What the batch check of the attendance route does. When some record of the request
  carries a non-zero number that is not a student of the target batch, no table
  changes, whoever sends the request and whichever queries fail; for an authorized user
  on a healthy store the response is the 400 validation failure, and for a body that
  passes the shape checks its field is \<open>records\<close>. Records whose student id is 0 or
  \<open>NaN\<close> are not in the checked list.
\<close>

lemma attendance_rejects_checked_student:
  assumes "r \<in> set recs" and "outside_batch w b r"
  shows "attendance (snd (post_attendance dp tid usr
                            \<lparr>date = dt, batch_id = Some b, records = Some recs\<rparr> w)) = attendance w \<and>
         xp_frame w (snd (post_attendance dp tid usr
                            \<lparr>date = dt, batch_id = Some b, records = Some recs\<rparr> w)) \<and>
         teachers (snd (post_attendance dp tid usr
                            \<lparr>date = dt, batch_id = Some b, records = Some recs\<rparr> w)) = teachers w \<and>
         (authorized w usr tid b \<and> faults w = [] \<longrightarrow>
            status_code (fst (post_attendance dp tid usr
                            \<lparr>date = dt, batch_id = Some b, records = Some recs\<rparr> w)) = 400 \<and>
            message (fst (post_attendance dp tid usr
                            \<lparr>date = dt, batch_id = Some b, records = Some recs\<rparr> w))
              = ''Validation failed'' \<and>
            (\<forall>d. dt = Some d \<and> well_formed dp d b recs \<longrightarrow>
               resp_fields (fst (post_attendance dp tid usr
                            \<lparr>date = dt, batch_id = Some b, records = Some recs\<rparr> w))
                 = Some (''records'', ''Some student(s) not in selected batch'')))"
proof -
  let ?w1 = "w\<lparr>faults := tl (faults w)\<rparr>"
  have o1: "outside_batch ?w1 b r" using assms(2) by simp
  note a = attendance_write_rejects[OF assms(1) assms(2)]
  note a1 = attendance_write_rejects[OF assms(1) o1]
  have t: "teachers ?w1 = teachers w" by simp
  have frame: "xp_frame w (snd (post_attendance dp tid usr
                            \<lparr>date = dt, batch_id = Some b, records = Some recs\<rparr> w))"
    using a a1
    by (auto simp: post_attendance_def teacherHasBatch_eq xp_frame_def console_error_def
             split: option.splits)
  have teach: "teachers (snd (post_attendance dp tid usr
                            \<lparr>date = dt, batch_id = Some b, records = Some recs\<rparr> w)) = teachers w"
    using a a1 t
    by (auto simp: post_attendance_def teacherHasBatch_eq console_error_def split: option.splits)
  have resp: "status_code (fst (post_attendance dp tid usr
                            \<lparr>date = dt, batch_id = Some b, records = Some recs\<rparr> w)) = 400 \<and>
            message (fst (post_attendance dp tid usr
                            \<lparr>date = dt, batch_id = Some b, records = Some recs\<rparr> w))
              = ''Validation failed'' \<and>
            (\<forall>d. dt = Some d \<and> well_formed dp d b recs \<longrightarrow>
               resp_fields (fst (post_attendance dp tid usr
                            \<lparr>date = dt, batch_id = Some b, records = Some recs\<rparr> w))
                 = Some (''records'', ''Some student(s) not in selected batch''))"
    if "authorized w usr tid b" "faults w = []"
    using a a1 that
    by (auto simp: post_attendance_def teacherHasBatch_eq validation_failed_def authorized_def
                   well_formed_def split: option.splits)
  show ?thesis
    using frame teach resp by (simp add: xp_frame_def)
qed

text \<open>
  Claim C4 at a concrete request. The claim asks that a request naming a student who is
  not in the batch be rejected as a whole. Teacher 1 posts, for batch 7, one record for
  student 101 (in the batch) and one with student id 0 (no student of the batch): the
  id 0 is dropped from the list that is checked but not from the rows that are
  inserted, so the answer is \<open>Saved\<close> with count 2 and both rows are written.
\<close>

theorem attendance_written_for_unchecked_student:
  "students demo_world 0 \<noteq> Some (Some 7) \<and>
   authorized demo_world (Some \<lparr>u_id = 1, role = ''teacher''\<rparr>) 1 7 \<and>
   fst (post_attendance (\<lambda>s. True) 1 (Some \<lparr>u_id = 1, role = ''teacher''\<rparr>)
       (att_request ''2024-03-05'' 7
          [\<lparr>student_id = Some 101, status = ''Present''\<rparr>,
           \<lparr>student_id = Some 0, status = ''Present''\<rparr>])
       demo_world) = saved ''Saved'' 2 \<and>
   attendance demo_world = [] \<and>
   attendance (snd (post_attendance (\<lambda>s. True) 1 (Some \<lparr>u_id = 1, role = ''teacher''\<rparr>)
       (att_request ''2024-03-05'' 7
          [\<lparr>student_id = Some 101, status = ''Present''\<rparr>,
           \<lparr>student_id = Some 0, status = ''Present''\<rparr>])
       demo_world))
     = [\<lparr>a_student_id = 101, attendance_date = ''2024-03-05'', a_status = ''Present'',
         a_recorded_by = Some 1\<rparr>,
        \<lparr>a_student_id = 0, attendance_date = ''2024-03-05'', a_status = ''Present'',
         a_recorded_by = Some 1\<rparr>]"
  by (simp add: post_attendance_def attendance_write_def isValidDateString_def matches_ymd_def
                is_digit_def isAdmin_def isSelf_def authorized_def teacherHasBatch_def
                select_students_in_batch_def insert_attendance_def query_fault_def
                truthy_ids_def build_values_def value_row_def recorder_def saved_def
                addTeacherXP_healthy_total attendance_key_def attendance_on_dup_def
                demo_world_def)

text \<open>
  Claim C7. For an accepted request whose queries up to the INSERT do not fail, the
  response is \<open>Saved\<close> with the count and the attendance table holds the upserted
  rows, whatever the XP update does afterwards; when \<open>addTeacherXP\<close> fails, the final
  world is the one it left behind plus one warning line on the console.
\<close>

theorem attendance_success_survives_xp_failure:
  assumes "well_formed dp d b recs" and "authorized w usr tid b"
      and "list_all (in_batch w b) recs"
      and "True \<notin> set (take (queries_to_insert usr) (faults w))"
  shows "fst (post_attendance dp tid usr (att_request d b recs) w)
           = saved ''Saved'' (length recs) \<and>
         attendance (snd (post_attendance dp tid usr (att_request d b recs) w))
           = fold (upsert attendance_key attendance_on_dup) (map (att_row usr d) recs)
                  (attendance w) \<and>
         (\<forall>e w3. addTeacherXP tid XP_ATTENDANCE (after_insert usr d recs w) = (Inl e, w3) \<longrightarrow>
            snd (post_attendance dp tid usr (att_request d b recs) w)
              = console_warn ''XP update (attendance) failed:'' w3)"
  using post_attendance_accepts_attendance[OF assms]
  by (simp add: post_attendance_accepts[OF assms] after_insert_attendance)

theorem attendance_success_survives_xp_failure_witness:
  "well_formed (\<lambda>s. True) ''2024-03-05'' 7 [\<lparr>student_id = Some 101, status = ''Present''\<rparr>] \<and>
   authorized (demo_world\<lparr>faults := [False, False, False, True]\<rparr>)
      (Some \<lparr>u_id = 1, role = ''teacher''\<rparr>) 1 7 \<and>
   list_all (in_batch (demo_world\<lparr>faults := [False, False, False, True]\<rparr>) 7)
      [\<lparr>student_id = Some 101, status = ''Present''\<rparr>] \<and>
   True \<notin> set (take (queries_to_insert (Some \<lparr>u_id = 1, role = ''teacher''\<rparr>))
                    (faults (demo_world\<lparr>faults := [False, False, False, True]\<rparr>))) \<and>
   fst (addTeacherXP 1 XP_ATTENDANCE
          (after_insert (Some \<lparr>u_id = 1, role = ''teacher''\<rparr>) ''2024-03-05''
             [\<lparr>student_id = Some 101, status = ''Present''\<rparr>]
             (demo_world\<lparr>faults := [False, False, False, True]\<rparr>))) = Inl StoreError \<and>
   fst (post_attendance (\<lambda>s. True) 1 (Some \<lparr>u_id = 1, role = ''teacher''\<rparr>)
       (att_request ''2024-03-05'' 7 [\<lparr>student_id = Some 101, status = ''Present''\<rparr>])
       (demo_world\<lparr>faults := [False, False, False, True]\<rparr>)) = saved ''Saved'' 1 \<and>
   attendance (snd (post_attendance (\<lambda>s. True) 1 (Some \<lparr>u_id = 1, role = ''teacher''\<rparr>)
       (att_request ''2024-03-05'' 7 [\<lparr>student_id = Some 101, status = ''Present''\<rparr>])
       (demo_world\<lparr>faults := [False, False, False, True]\<rparr>)))
     = [\<lparr>a_student_id = 101, attendance_date = ''2024-03-05'', a_status = ''Present'',
         a_recorded_by = Some 1\<rparr>] \<and>
   teachers (snd (post_attendance (\<lambda>s. True) 1 (Some \<lparr>u_id = 1, role = ''teacher''\<rparr>)
       (att_request ''2024-03-05'' 7 [\<lparr>student_id = Some 101, status = ''Present''\<rparr>])
       (demo_world\<lparr>faults := [False, False, False, True]\<rparr>))) = teachers demo_world \<and>
   console (snd (post_attendance (\<lambda>s. True) 1 (Some \<lparr>u_id = 1, role = ''teacher''\<rparr>)
       (att_request ''2024-03-05'' 7 [\<lparr>student_id = Some 101, status = ''Present''\<rparr>])
       (demo_world\<lparr>faults := [False, False, False, True]\<rparr>)))
     = [''[XP] addTeacherXP ERROR'', ''XP update (attendance) failed:'']"
  using attendance_success_survives_xp_failure
          [of "\<lambda>s. True" "''2024-03-05''" 7 "[\<lparr>student_id = Some 101, status = ''Present''\<rparr>]"
              "demo_world\<lparr>faults := [False, False, False, True]\<rparr>"
              "Some \<lparr>u_id = 1, role = ''teacher''\<rparr>" 1]
  by (simp add: well_formed_def isValidDateString_def matches_ymd_def is_digit_def isAdmin_def
                isSelf_def in_batch_def demo_world_def att_row_def sid_of_def recorder_def
                authorized_def queries_to_insert_def after_insert_def addTeacherXP_def
                update_teacher_xp_def query_fault_def console_error_def console_warn_def)

lemma healthy_after_insert:
  "faults w = [] \<Longrightarrow>
   after_insert usr d recs w
     = w\<lparr>attendance := fold (upsert attendance_key attendance_on_dup)
                             (map (att_row usr d) recs) (attendance w)\<rparr>"
  by (cases w) (simp add: after_insert_def)

lemma post_attendance_healthy:
  assumes wf: "well_formed dp d b recs" and au: "authorized w usr tid b"
      and v: "list_all (in_batch w b) recs" and h: "faults w = []"
  shows "post_attendance dp tid usr (att_request d b recs) w =
           (saved ''Saved'' (length recs),
            w\<lparr>attendance := fold (upsert attendance_key attendance_on_dup)
                                  (map (att_row usr d) recs) (attendance w),
              teachers := xp_awarded tid XP_ATTENDANCE (teachers w)\<rparr>)"
proof -
  have f: "True \<notin> set (take (queries_to_insert usr) (faults w))" using h by simp
  let ?w2 = "w\<lparr>attendance := fold (upsert attendance_key attendance_on_dup)
                             (map (att_row usr d) recs) (attendance w)\<rparr>"
  have h2: "faults ?w2 = []" using h by simp
  show ?thesis
    by (simp add: post_attendance_accepts[OF wf au v f] healthy_after_insert[OF h]
                  addTeacherXP_healthy_total[OF h2])
qed

lemma attendance_on_dup_overwrites:
  "attendance_key old = attendance_key new \<Longrightarrow> attendance_on_dup old new = new"
  by (cases old, cases new) (simp add: attendance_key_def attendance_on_dup_def)

lemma in_batch_frame:
  "students w' = students w \<Longrightarrow> in_batch w' = in_batch w"
  by (intro ext) (simp add: in_batch_def split: option.splits)

text \<open>
  Claim C6. On a healthy store whose attendance table has no two rows with the same
  (student, date): sending an accepted request a second time leaves the attendance
  table as the first time left it, the table still has no duplicate key, and rows with
  other keys stay; and after \<open>Present\<close> then \<open>Absent\<close> for the same student and
  date, the table has exactly one row for that key, with status \<open>Absent\<close> and the
  recorder of the second request.
\<close>

theorem attendance_upsert_idempotent:
  assumes dv: "d \<noteq> []" "isValidDateString dp d" and b: "b \<noteq> 0" and h: "faults w = []"
      and dk: "distinct (map attendance_key (attendance w))"
  shows "(recs \<noteq> [] \<and> authorized w usr tid b \<and> list_all (in_batch w b) recs \<longrightarrow>
            attendance (snd (post_attendance dp tid usr (att_request d b recs)
                               (snd (post_attendance dp tid usr (att_request d b recs) w))))
              = attendance (snd (post_attendance dp tid usr (att_request d b recs) w)) \<and>
            distinct (map attendance_key
                        (attendance (snd (post_attendance dp tid usr (att_request d b recs) w)))) \<and>
            (\<forall>r \<in> set (attendance w).
               attendance_key r \<notin> attendance_key ` set (map (att_row usr d) recs) \<longrightarrow>
               r \<in> set (attendance (snd (post_attendance dp tid usr (att_request d b recs) w))))) \<and>
         (s \<noteq> 0 \<and> students w s = Some (Some b) \<and>
          authorized w usr1 tid1 b \<and> authorized w usr2 tid2 b \<longrightarrow>
            filter (\<lambda>r. attendance_key r = (s, d))
              (attendance (snd (post_attendance dp tid2 usr2
                   (att_request d b [\<lparr>student_id = Some s, status = ''Absent''\<rparr>])
                   (snd (post_attendance dp tid1 usr1
                      (att_request d b [\<lparr>student_id = Some s, status = ''Present''\<rparr>]) w)))))
              = [\<lparr>a_student_id = s, attendance_date = d, a_status = ''Absent'',
                  a_recorded_by = recorder usr2\<rparr>])"
proof (intro conjI impI)
  let ?up = "upsert attendance_key attendance_on_dup"
  note ow = attendance_on_dup_overwrites
  have kp: "\<And>old new. attendance_key old = attendance_key new \<Longrightarrow>
              attendance_key (attendance_on_dup old new) = attendance_key old"
    by (simp add: ow)
  {
    assume a: "recs \<noteq> [] \<and> authorized w usr tid b \<and> list_all (in_batch w b) recs"
    let ?rows = "map (att_row usr d) recs"
    let ?w1 = "snd (post_attendance dp tid usr (att_request d b recs) w)"
    have wf: "well_formed dp d b recs" using dv b a by (simp add: well_formed_def)
    have au: "authorized w usr tid b" and v: "list_all (in_batch w b) recs" using a by simp_all
    have w1: "?w1 = w\<lparr>attendance := fold ?up ?rows (attendance w),
                       teachers := xp_awarded tid XP_ATTENDANCE (teachers w)\<rparr>"
      by (simp add: post_attendance_healthy[OF wf au v h])
    have h1: "faults ?w1 = []" using h by (simp add: w1)
    have au1: "authorized ?w1 usr tid b" using au by (simp add: w1 authorized_def)
    have v1: "list_all (in_batch ?w1 b) recs"
      using v in_batch_frame[of ?w1 w] by (simp add: w1)
    have "attendance (snd (post_attendance dp tid usr (att_request d b recs) ?w1))
            = fold ?up ?rows (attendance ?w1)"
      by (simp add: post_attendance_healthy[OF wf au1 v1 h1])
    also have "\<dots> = fold ?up ?rows (fold ?up ?rows (attendance w))"
      by (simp add: w1)
    also have "\<dots> = fold ?up ?rows (attendance w)"
      by (rule fold_upsert_idem[of attendance_key attendance_on_dup, OF ow dk])
    finally show "attendance (snd (post_attendance dp tid usr (att_request d b recs) ?w1))
                    = attendance ?w1"
      by (simp add: w1)
    show "distinct (map attendance_key (attendance ?w1))"
      using fold_upsert_distinct[of attendance_key attendance_on_dup "attendance w" ?rows] kp dk
      by (simp add: w1)
    show "\<forall>r \<in> set (attendance w).
               attendance_key r \<notin> attendance_key ` set (map (att_row usr d) recs) \<longrightarrow>
               r \<in> set (attendance ?w1)"
      using fold_upsert_other_rows[of _ "attendance w" attendance_key ?rows attendance_on_dup]
      by (simp add: w1)
  }
  {
    assume a: "s \<noteq> 0 \<and> students w s = Some (Some b) \<and>
          authorized w usr1 tid1 b \<and> authorized w usr2 tid2 b"
    let ?p = "[\<lparr>student_id = Some s, status = ''Present''\<rparr>]"
    let ?q = "[\<lparr>student_id = Some s, status = ''Absent''\<rparr>]"
    let ?w1 = "snd (post_attendance dp tid1 usr1 (att_request d b ?p) w)"
    let ?new = "\<lparr>a_student_id = s, attendance_date = d, a_status = ''Absent'',
                  a_recorded_by = recorder usr2\<rparr>"
    have wfp: "well_formed dp d b ?p" and wfq: "well_formed dp d b ?q"
      using dv b by (simp_all add: well_formed_def)
    have vp: "list_all (in_batch w b) ?p" and vq: "list_all (in_batch w b) ?q"
      using a by (simp_all add: in_batch_def)
    have au1: "authorized w usr1 tid1 b" and au2: "authorized w usr2 tid2 b" using a by simp_all
    have w1: "?w1 = w\<lparr>attendance := fold ?up (map (att_row usr1 d) ?p) (attendance w),
                       teachers := xp_awarded tid1 XP_ATTENDANCE (teachers w)\<rparr>"
      by (simp add: post_attendance_healthy[OF wfp au1 vp h])
    have h1: "faults ?w1 = []" using h by (simp add: w1)
    have au2': "authorized ?w1 usr2 tid2 b" using au2 by (simp add: w1 authorized_def)
    have vq': "list_all (in_batch ?w1 b) ?q"
      using vq in_batch_frame[of ?w1 w] by (simp add: w1)
    have d1: "distinct (map attendance_key (attendance ?w1))"
      using fold_upsert_distinct[of attendance_key attendance_on_dup "attendance w"
                                    "map (att_row usr1 d) ?p"] kp dk
      by (simp add: w1)
    have row: "att_row usr2 d \<lparr>student_id = Some s, status = ''Absent''\<rparr> = ?new"
      by (simp add: att_row_def sid_of_def)
    have "attendance (snd (post_attendance dp tid2 usr2 (att_request d b ?q) ?w1))
            = ?up ?new (attendance ?w1)"
      by (simp add: post_attendance_healthy[OF wfq au2' vq' h1] row)
    moreover have "filter (\<lambda>r. attendance_key r = attendance_key ?new)
                     (?up ?new (attendance ?w1)) = [?new]"
      by (rule upsert_row_filter[of attendance_key attendance_on_dup, OF ow d1])
    ultimately show "filter (\<lambda>r. attendance_key r = (s, d))
              (attendance (snd (post_attendance dp tid2 usr2 (att_request d b ?q) ?w1)))
              = [?new]"
      by (simp add: attendance_key_def)
  }
qed

theorem attendance_upsert_idempotent_witness:
  "''2024-03-05'' \<noteq> [] \<and> isValidDateString (\<lambda>s. True) ''2024-03-05'' \<and> (7::int) \<noteq> 0 \<and>
   faults demo_world = [] \<and> distinct (map attendance_key (attendance demo_world)) \<and>
   authorized demo_world (Some \<lparr>u_id = 1, role = ''teacher''\<rparr>) 1 7 \<and>
   authorized demo_world (Some \<lparr>u_id = 9, role = ''admin''\<rparr>) 1 7 \<and>
   list_all (in_batch demo_world 7)
     [\<lparr>student_id = Some 101, status = ''Present''\<rparr>,
      \<lparr>student_id = Some 102, status = ''Late''\<rparr>] \<and>
   attendance (snd (post_attendance (\<lambda>s. True) 1 (Some \<lparr>u_id = 1, role = ''teacher''\<rparr>)
       (att_request ''2024-03-05'' 7
          [\<lparr>student_id = Some 101, status = ''Present''\<rparr>,
           \<lparr>student_id = Some 102, status = ''Late''\<rparr>])
       (snd (post_attendance (\<lambda>s. True) 1 (Some \<lparr>u_id = 1, role = ''teacher''\<rparr>)
          (att_request ''2024-03-05'' 7
             [\<lparr>student_id = Some 101, status = ''Present''\<rparr>,
              \<lparr>student_id = Some 102, status = ''Late''\<rparr>])
          demo_world))))
     = attendance (snd (post_attendance (\<lambda>s. True) 1 (Some \<lparr>u_id = 1, role = ''teacher''\<rparr>)
          (att_request ''2024-03-05'' 7
             [\<lparr>student_id = Some 101, status = ''Present''\<rparr>,
              \<lparr>student_id = Some 102, status = ''Late''\<rparr>])
          demo_world)) \<and>
   filter (\<lambda>r. attendance_key r = (101, ''2024-03-05''))
     (attendance (snd (post_attendance (\<lambda>s. True) 1 (Some \<lparr>u_id = 9, role = ''admin''\<rparr>)
        (att_request ''2024-03-05'' 7 [\<lparr>student_id = Some 101, status = ''Absent''\<rparr>])
        (snd (post_attendance (\<lambda>s. True) 1 (Some \<lparr>u_id = 1, role = ''teacher''\<rparr>)
           (att_request ''2024-03-05'' 7 [\<lparr>student_id = Some 101, status = ''Present''\<rparr>])
           demo_world)))))
     = [\<lparr>a_student_id = 101, attendance_date = ''2024-03-05'', a_status = ''Absent'',
         a_recorded_by = Some 9\<rparr>]"
  using attendance_upsert_idempotent
          [of "''2024-03-05''" "\<lambda>s. True" 7 demo_world
              "[\<lparr>student_id = Some 101, status = ''Present''\<rparr>,
                \<lparr>student_id = Some 102, status = ''Late''\<rparr>]"
              "Some \<lparr>u_id = 1, role = ''teacher''\<rparr>" 1 101
              "Some \<lparr>u_id = 1, role = ''teacher''\<rparr>" 1
              "Some \<lparr>u_id = 9, role = ''admin''\<rparr>" 1]
  by (simp add: isValidDateString_def matches_ymd_def is_digit_def isAdmin_def isSelf_def
                in_batch_def demo_world_def authorized_def recorder_def)

subsection \<open>Responses with status 200\<close>

lemma attendance_write_200:
  assumes "status_code (fst (attendance_write tid usr d b recs w)) = 200"
  shows "\<exists>w2. teachers w2 = teachers w \<and> (faults w = [] \<longrightarrow> faults w2 = []) \<and>
              attendance_write tid usr d b recs w =
                (case addTeacherXP tid XP_ATTENDANCE w2 of
                   (Inl e, w3) \<Rightarrow>
                     (saved ''Saved'' (length recs),
                      console_warn ''XP update (attendance) failed:'' w3)
                 | (Inr u, w3) \<Rightarrow> (saved ''Saved'' (length recs), w3))"
proof -
  let ?ids = "truthy_ids (map student_id recs)"
  let ?w1 = "w\<lparr>faults := tl (faults w)\<rparr>"
  let ?vals = "build_values usr d recs"
  from assms have ne: "?ids \<noteq> []"
    by (auto simp: attendance_write_def Let_def validation_failed_def)
  from assms ne have f1: "\<not> (faults w \<noteq> [] \<and> hd (faults w))"
    by (auto simp: attendance_write_def Let_def select_students_in_batch_eq json_def)
  then have sel: "select_students_in_batch ?ids b w
               = (Inr (filter (\<lambda>i. students w i = Some (Some b)) (remdups ?ids)), ?w1)"
    by (auto simp: select_students_in_batch_eq)
  obtain res w2 where ins: "insert_attendance ?vals ?w1 = (res, w2)"
    by (cases "insert_attendance ?vals ?w1")
  from assms ne have u: "res = Inr ()"
    using ins by (cases res) (auto simp: attendance_write_def Let_def sel json_def
                       validation_failed_def split: if_splits)
  have t2: "teachers w2 = teachers w" and h2: "faults w = [] \<longrightarrow> faults w2 = []"
    using ins by (auto simp: insert_attendance_eq split: if_splits option.splits)
  have "attendance_write tid usr d b recs w =
                (case addTeacherXP tid XP_ATTENDANCE w2 of
                   (Inl e, w3) \<Rightarrow>
                     (saved ''Saved'' (length recs),
                      console_warn ''XP update (attendance) failed:'' w3)
                 | (Inr u, w3) \<Rightarrow> (saved ''Saved'' (length recs), w3))"
    using assms ne
    by (auto simp: attendance_write_def Let_def sel ins u validation_failed_def split: if_splits)
  with t2 h2 show ?thesis by blast
qed

lemma post_attendance_200:
  assumes "status_code (fst (post_attendance dp tid usr body w)) = 200"
  shows "\<exists>recs w2. records body = Some recs \<and> teachers w2 = teachers w \<and>
              (faults w = [] \<longrightarrow> faults w2 = []) \<and>
              post_attendance dp tid usr body w =
                (case addTeacherXP tid XP_ATTENDANCE w2 of
                   (Inl e, w3) \<Rightarrow>
                     (saved ''Saved'' (length recs),
                      console_warn ''XP update (attendance) failed:'' w3)
                 | (Inr u, w3) \<Rightarrow> (saved ''Saved'' (length recs), w3))"
proof -
  let ?w1 = "w\<lparr>faults := tl (faults w)\<rparr>"
  from assms obtain d b recs where body: "date body = Some d" "batch_id body = Some b"
      "records body = Some recs"
    by (auto simp: post_attendance_def validation_failed_def split: option.splits if_splits)
  from assms body have
    "(post_attendance dp tid usr body w = attendance_write tid usr d b recs w) \<or>
     (post_attendance dp tid usr body w = attendance_write tid usr d b recs ?w1)"
    by (auto simp: post_attendance_def validation_failed_def json_def teacherHasBatch_eq
             split: if_splits)
  then show ?thesis
  proof
    assume e: "post_attendance dp tid usr body w = attendance_write tid usr d b recs w"
    with assms attendance_write_200[of tid usr d b recs w] body show ?thesis by auto
  next
    assume e: "post_attendance dp tid usr body w = attendance_write tid usr d b recs ?w1"
    with assms attendance_write_200[of tid usr d b recs ?w1] body show ?thesis by auto
  qed
qed

section \<open>Properties of the marks routes\<close>

lemma store_call_eq:
  "store_call w =
     (if faults w \<noteq> [] \<and> hd (faults w) then Inl StoreError else Inr (),
      w\<lparr>faults := tl (faults w)\<rparr>)"
  by (simp add: store_call_def query_fault_eq bool.case_eq_if)

lemma upsert_marks_eq:
  "upsert_marks row w =
     (if faults w \<noteq> [] \<and> hd (faults w) then (Inl StoreError, w\<lparr>faults := tl (faults w)\<rparr>)
      else (Inr (), w\<lparr>faults := tl (faults w),
                      marks_table := upsert marks_key marks_on_dup row (marks_table w)\<rparr>))"
  by (simp add: upsert_marks_def query_fault_eq bool.case_eq_if)

lemma rollback_eq:
  "rollback snapshot w =
     (if faults w \<noteq> [] \<and> hd (faults w) then Inl StoreError else Inr (),
      w\<lparr>faults := tl (faults w), marks_table := snapshot\<rparr>)"
  by (simp add: rollback_def query_fault_eq bool.case_eq_if)

lemma marks_frame_refl: "marks_frame w w"
  by (simp add: marks_frame_def)

lemma marks_frame_trans: "marks_frame w w1 \<Longrightarrow> marks_frame w1 w2 \<Longrightarrow> marks_frame w w2"
  by (simp add: marks_frame_def)

lemma marks_frame_console: "marks_frame w (console_error m w)"
  by (simp add: marks_frame_def console_error_def)

lemma store_call_frame: "marks_frame w (snd (store_call w))"
  by (simp add: store_call_eq marks_frame_def)

lemma rollback_frame: "marks_frame w (snd (rollback snapshot w))"
  by (simp add: rollback_eq marks_frame_def)

lemma upsert_marks_frame: "marks_frame w (snd (upsert_marks row w))"
  by (simp add: upsert_marks_eq marks_frame_def)

lemma marks_loop_frame: "marks_frame w (snd (marks_loop b a d mx recs w))"
proof (induction recs arbitrary: w)
  case Nil
  show ?case by (simp add: marks_frame_refl)
next
  case (Cons r recs)
  show ?case
  proof (cases "mr_student_id r")
    case None
    then show ?thesis by (simp add: marks_frame_refl)
  next
    case (Some sid)
    let ?row = "\<lparr>m_student_id = sid, m_batch_id = b, m_assessment = a, exam_date = d,
                  subject = mr_subject r, marks = mr_marks r, semester = mr_semester r,
                  m_recorded_by = mr_recorded_by r, m_max_marks = mx\<rparr>"
    obtain res w1 where u: "upsert_marks ?row w = (res, w1)"
      by (cases "upsert_marks ?row w")
    have f1: "marks_frame w w1" using upsert_marks_frame[of w ?row] u by simp
    show ?thesis
      using Some u f1 Cons.IH[of w1]
      by (auto simp: marks_frame_refl split: sum.splits intro: marks_frame_trans)
  qed
qed

lemma marks_loop_healthy:
  "faults w = [] \<Longrightarrow> list_all has_student recs \<Longrightarrow>
   marks_loop b a d mx recs w =
     (Inr Completed,
      w\<lparr>marks_table := fold (upsert marks_key marks_on_dup)
                              (map (marks_row_of b a d mx) recs) (marks_table w)\<rparr>)"
proof (induction recs arbitrary: w)
  case Nil
  show ?case by simp
next
  case (Cons r recs)
  then obtain sid where sid: "mr_student_id r = Some sid" "sid \<noteq> 0"
    by (auto simp: has_student_def split: option.splits)
  let ?w1 = "w\<lparr>marks_table := upsert marks_key marks_on_dup
                                    (marks_row_of b a d mx r) (marks_table w)\<rparr>"
  have u: "upsert_marks (marks_row_of b a d mx r) w = (Inr (), ?w1)"
    using Cons.prems(1) by (cases w) (simp add: upsert_marks_eq)
  have "marks_loop b a d mx (r # recs) w = marks_loop b a d mx recs ?w1"
    using sid u by (simp add: marks_row_of_def mr_sid_def)
  moreover have "faults ?w1 = []" using Cons.prems(1) by simp
  moreover have "list_all has_student recs" using Cons.prems(2) by simp
  ultimately show ?case using Cons.IH[of ?w1] by simp
qed

lemma marks_failure_frame: "marks_frame w (snd (marks_failure snapshot w))"
  using marks_frame_trans[OF rollback_frame marks_frame_console]
  by (simp add: marks_failure_def)

lemma marks_failure_code: "status_code (fst (marks_failure snapshot w)) = 500"
  by (simp add: marks_failure_def json_def)

lemma marks_transaction_frame: "marks_frame w (snd (marks_transaction b a p w))"
proof -
  obtain r1 w1 where s1: "store_call w = (r1, w1)" by (cases "store_call w")
  obtain r2 w2 where s2: "store_call w1 = (r2, w2)" by (cases "store_call w1")
  obtain res w3 where l: "marks_loop b a (p_date p) (p_max_marks p) (p_records p) w2 = (res, w3)"
    by (cases "marks_loop b a (p_date p) (p_max_marks p) (p_records p) w2")
  obtain r4 w4 where s4: "store_call w3 = (r4, w4)" by (cases "store_call w3")
  obtain r5 w5 where rb: "rollback (marks_table w1) w3 = (r5, w5)"
    by (cases "rollback (marks_table w1) w3")
  have f1: "marks_frame w w1" using store_call_frame[of w] s1 by simp
  have f2: "marks_frame w w2"
    using store_call_frame[of w1] s2 f1 by (auto intro: marks_frame_trans)
  have f3: "marks_frame w w3"
    using marks_loop_frame[of w2 b a "p_date p" "p_max_marks p" "p_records p"] l f2
    by (auto intro: marks_frame_trans)
  have f4: "marks_frame w w4"
    using store_call_frame[of w3] s4 f3 by (auto intro: marks_frame_trans)
  have f5: "marks_frame w w5"
    using rollback_frame[of w3 "marks_table w1"] rb f3 by (auto intro: marks_frame_trans)
  have ff: "marks_frame w (snd (marks_failure sn w'))" if "marks_frame w w'" for sn w'
    using that marks_failure_frame[of w' sn] by (auto intro: marks_frame_trans)
  show ?thesis
    using f1 f2 f3 f4 f5 ff marks_frame_trans[OF f1 marks_frame_console]
    by (auto simp: marks_transaction_def s1 s2 l s4 rb Let_def
             split: sum.splits loop_end.splits)
qed

lemma marks_transaction_200:
  assumes "status_code (fst (marks_transaction b a p w)) = 200"
  shows "fst (marks_transaction b a p w) = saved ''Marks saved'' (length (p_records p))"
proof -
  obtain r1 w1 where s1: "store_call w = (r1, w1)" by (cases "store_call w")
  obtain r2 w2 where s2: "store_call w1 = (r2, w2)" by (cases "store_call w1")
  obtain res w3 where l: "marks_loop b a (p_date p) (p_max_marks p) (p_records p) w2 = (res, w3)"
    by (cases "marks_loop b a (p_date p) (p_max_marks p) (p_records p) w2")
  obtain r4 w4 where s4: "store_call w3 = (r4, w4)" by (cases "store_call w3")
  obtain r5 w5 where rb: "rollback (marks_table w1) w3 = (r5, w5)"
    by (cases "rollback (marks_table w1) w3")
  show ?thesis
    using assms
    by (auto simp: marks_transaction_def s1 s2 l s4 rb Let_def marks_failure_code json_def
             split: sum.splits loop_end.splits)
qed

lemma post_marks_frame: "marks_frame w (snd (post_marks body w))"
  using marks_transaction_frame
  by (auto simp: post_marks_def Let_def marks_frame_refl split: option.splits)

lemma post_marks_200:
  "status_code (fst (post_marks body w)) = 200 \<Longrightarrow>
   fst (post_marks body w) = saved ''Marks saved'' (length (p_records (buildPayload body)))"
  using marks_transaction_200
  by (auto simp: post_marks_def Let_def json_def split: option.splits if_splits)

lemma xp_trigger_saved: "xp_trigger (saved ''Marks saved'' n)"
  by (simp add: xp_trigger_def saved_def lower_char_def)

lemma forced_records_length:
  "length (p_records (buildPayload
      (body\<lparr>mb_records := map_option (map f) (mb_records body)\<rparr>)))
   = length (p_records (buildPayload body))"
  by (simp add: buildPayload_def split: option.splits)

lemma post_teacher_marks_200:
  assumes "status_code (fst (post_teacher_marks tid usr body w)) = 200"
  shows "\<exists>w1. teachers w1 = teachers w \<and> (faults w = [] \<longrightarrow> faults w1 = []) \<and>
              post_teacher_marks tid usr body w =
                (case addTeacherXP tid XP_MARKS w1 of
                   (Inl e, w2) \<Rightarrow>
                     (saved ''Marks saved'' (length (p_records (buildPayload body))),
                      console_warn ''[XP] failed to award marks XP:'' w2)
                 | (Inr u, w2) \<Rightarrow>
                     (saved ''Marks saved'' (length (p_records (buildPayload body))), w2))"
proof -
  let ?body = "body\<lparr>mb_records :=
                    map_option (map (\<lambda>r. r\<lparr>mr_recorded_by := Some tid\<rparr>)) (mb_records body)\<rparr>"
  obtain resp w1 where pm: "post_marks ?body w = (resp, w1)"
    by (cases "post_marks ?body w")
  have sc: "status_code resp = 200"
    using assms by (auto simp: post_teacher_marks_def Let_def pm split: if_splits sum.splits prod.splits)
  then have r: "resp = saved ''Marks saved'' (length (p_records (buildPayload body)))"
    using post_marks_200[of ?body w] pm forced_records_length[of _ body] by simp
  have f: "teachers w1 = teachers w" "faults w = [] \<longrightarrow> faults w1 = []"
    using post_marks_frame[of w ?body] pm by (auto simp: marks_frame_def)
  have "post_teacher_marks tid usr body w =
                (case addTeacherXP tid XP_MARKS w1 of
                   (Inl e, w2) \<Rightarrow> (resp, console_warn ''[XP] failed to award marks XP:'' w2)
                 | (Inr u, w2) \<Rightarrow> (resp, w2))"
    using xp_trigger_saved r
    by (simp add: post_teacher_marks_def Let_def pm split: sum.splits prod.splits)
  with f r show ?thesis by blast
qed

lemma post_marks_healthy:
  assumes h: "faults w = []" and b: "b \<noteq> 0" and a: "a \<noteq> []" and ne: "recs \<noteq> []"
      and v: "list_all has_student recs"
  shows "post_marks (marks_request dt b a mx recs) w =
           (saved ''Marks saved'' (length recs),
            w\<lparr>marks_table :=
                 fold (upsert marks_key marks_on_dup)
                      (map (marks_row_of b a (p_date (buildPayload (marks_request dt b a mx recs))) mx)
                           recs)
                      (marks_table w)\<rparr>)"
proof -
  let ?p = "buildPayload (marks_request dt b a mx recs)"
  have p: "p_batch_id ?p = Some b" "p_assessment ?p = Some a" "p_records ?p = recs"
    "p_max_marks ?p = mx"
    using a by (simp_all add: buildPayload_def)
  have sc: "store_call w' = (Inr (), w')" if "faults w' = []" for w'
    using that by (simp add: store_call_def query_fault_healthy)
  let ?w3 = "w\<lparr>marks_table := fold (upsert marks_key marks_on_dup)
                      (map (marks_row_of b a (p_date ?p) mx) recs) (marks_table w)\<rparr>"
  have h3: "faults ?w3 = []" using h by simp
  have "marks_transaction b a ?p w = (saved ''Marks saved'' (length recs), ?w3)"
    by (simp add: marks_transaction_def sc[OF h] p marks_loop_healthy[OF h v] sc[OF h3])
  then show ?thesis
    using b ne by (simp add: post_marks_def p Let_def del: buildPayload_def)
qed

lemma post_teacher_marks_healthy:
  assumes h: "faults w = []" and b: "b \<noteq> 0" and a: "a \<noteq> []" and ne: "recs \<noteq> []"
      and v: "list_all has_student recs"
  shows "post_teacher_marks tid usr (marks_request dt b a mx recs) w =
           (saved ''Marks saved'' (length recs),
            w\<lparr>marks_table :=
                 fold (upsert marks_key marks_on_dup)
                      (map (marks_row_of b a (p_date (buildPayload (marks_request dt b a mx recs))) mx)
                           (map (\<lambda>r. r\<lparr>mr_recorded_by := Some tid\<rparr>) recs))
                      (marks_table w),
              teachers := xp_awarded tid XP_MARKS (teachers w)\<rparr>)"
proof -
  let ?recs = "map (\<lambda>r. r\<lparr>mr_recorded_by := Some tid\<rparr>) recs"
  have ne': "?recs \<noteq> []" using ne by simp
  have v': "list_all has_student ?recs"
    using v by (simp add: list_all_iff has_student_def)
  have pd: "p_date (buildPayload (marks_request dt b a mx ?recs))
              = p_date (buildPayload (marks_request dt b a mx recs))"
    by (simp add: buildPayload_def)
  let ?w1 = "w\<lparr>marks_table :=
                 fold (upsert marks_key marks_on_dup)
                      (map (marks_row_of b a (p_date (buildPayload (marks_request dt b a mx recs))) mx)
                           ?recs)
                      (marks_table w)\<rparr>"
  have pm: "post_marks (marks_request dt b a mx ?recs) w = (saved ''Marks saved'' (length recs), ?w1)"
    using post_marks_healthy[OF h b a ne' v', of dt mx] by (simp only: pd) simp
  have h1: "faults ?w1 = []" using h by simp
  show ?thesis
    by (simp add: post_teacher_marks_def pm xp_trigger_saved addTeacherXP_healthy_total[OF h1]
             del: map_map)
qed

text \<open>
  Claim C9. On a healthy store, every attendance submission through the teachers router
  that is answered 200 leaves the \<open>teachers\<close> table as one award of exactly 10 to the
  path teacher leaves it, and every marks submission through the teachers router that
  is answered 200 as one award of exactly 15 leaves it, whatever the body and however
  many records it carries. (An award to an id without a row changes nothing.)
\<close>

theorem xp_award_is_flat:
  assumes "faults w = []"
  shows "(status_code (fst (post_attendance dp tid usr body w)) = 200 \<longrightarrow>
            teachers (snd (post_attendance dp tid usr body w))
              = xp_awarded tid 10 (teachers w)) \<and>
         (status_code (fst (post_teacher_marks tid usr mbody w)) = 200 \<longrightarrow>
            teachers (snd (post_teacher_marks tid usr mbody w))
              = xp_awarded tid 15 (teachers w))"
proof (intro conjI impI)
  assume "status_code (fst (post_attendance dp tid usr body w)) = 200"
  from post_attendance_200[OF this]
  obtain recs w2 where w2:
    "records body = Some recs \<and> teachers w2 = teachers w \<and>
     (faults w = [] \<longrightarrow> faults w2 = []) \<and>
     post_attendance dp tid usr body w =
                (case addTeacherXP tid XP_ATTENDANCE w2 of
                   (Inl e, w3) \<Rightarrow>
                     (saved ''Saved'' (length recs),
                      console_warn ''XP update (attendance) failed:'' w3)
                 | (Inr u, w3) \<Rightarrow> (saved ''Saved'' (length recs), w3))"
    by (elim exE) (rule that, assumption)
  have h2: "faults w2 = []" using w2 assms by simp
  have t2: "teachers w2 = teachers w" using w2 by simp
  have e: "post_attendance dp tid usr body w =
             (saved ''Saved'' (length recs), w2\<lparr>teachers := xp_awarded tid XP_ATTENDANCE (teachers w2)\<rparr>)"
    using w2 by (simp add: addTeacherXP_healthy_total[OF h2])
  show "teachers (snd (post_attendance dp tid usr body w)) = xp_awarded tid 10 (teachers w)"
    by (simp add: e t2 XP_ATTENDANCE_def)
next
  assume "status_code (fst (post_teacher_marks tid usr mbody w)) = 200"
  from post_teacher_marks_200[OF this]
  obtain w1 where w1:
    "teachers w1 = teachers w \<and> (faults w = [] \<longrightarrow> faults w1 = []) \<and>
     post_teacher_marks tid usr mbody w =
                (case addTeacherXP tid XP_MARKS w1 of
                   (Inl e, w2) \<Rightarrow>
                     (saved ''Marks saved'' (length (p_records (buildPayload mbody))),
                      console_warn ''[XP] failed to award marks XP:'' w2)
                 | (Inr u, w2) \<Rightarrow>
                     (saved ''Marks saved'' (length (p_records (buildPayload mbody))), w2))"
    by (elim exE) (rule that, assumption)
  have h1: "faults w1 = []" using w1 assms by simp
  have t1: "teachers w1 = teachers w" using w1 by simp
  have e: "post_teacher_marks tid usr mbody w =
             (saved ''Marks saved'' (length (p_records (buildPayload mbody))),
              w1\<lparr>teachers := xp_awarded tid XP_MARKS (teachers w1)\<rparr>)"
    using w1 by (simp add: addTeacherXP_healthy_total[OF h1])
  show "teachers (snd (post_teacher_marks tid usr mbody w)) = xp_awarded tid 15 (teachers w)"
    by (simp add: e t1 XP_MARKS_def)
qed


theorem xp_award_is_flat_witness:
  "faults demo_world = [] \<and>
   status_code (fst (post_attendance (\<lambda>s. True) 1 (Some \<lparr>u_id = 1, role = ''teacher''\<rparr>)
       (att_request ''2024-03-05'' 7
          [\<lparr>student_id = Some 101, status = ''Present''\<rparr>,
           \<lparr>student_id = Some 102, status = ''Absent''\<rparr>])
       demo_world)) = 200 \<and>
   teachers (snd (post_attendance (\<lambda>s. True) 1 (Some \<lparr>u_id = 1, role = ''teacher''\<rparr>)
       (att_request ''2024-03-05'' 7
          [\<lparr>student_id = Some 101, status = ''Present''\<rparr>,
           \<lparr>student_id = Some 102, status = ''Absent''\<rparr>])
       demo_world)) 1 = Some \<lparr>xp = 10, level = 1, next_xp_target = 250\<rparr> \<and>
   status_code (fst (post_teacher_marks 1 (Some \<lparr>u_id = 1, role = ''teacher''\<rparr>)
       (marks_request None 7 ''Midterm'' (Some 100)
          [\<lparr>mr_student_id = Some 101, mr_subject = None, mr_marks = Some 81,
            mr_semester = None, mr_recorded_by = None\<rparr>,
           \<lparr>mr_student_id = Some 102, mr_subject = None, mr_marks = Some 64,
            mr_semester = None, mr_recorded_by = None\<rparr>])
       demo_world)) = 200 \<and>
   teachers (snd (post_teacher_marks 1 (Some \<lparr>u_id = 1, role = ''teacher''\<rparr>)
       (marks_request None 7 ''Midterm'' (Some 100)
          [\<lparr>mr_student_id = Some 101, mr_subject = None, mr_marks = Some 81,
            mr_semester = None, mr_recorded_by = None\<rparr>,
           \<lparr>mr_student_id = Some 102, mr_subject = None, mr_marks = Some 64,
            mr_semester = None, mr_recorded_by = None\<rparr>])
       demo_world)) 1 = Some \<lparr>xp = 15, level = 1, next_xp_target = 250\<rparr>"
proof -
  let ?u = "Some \<lparr>u_id = 1, role = ''teacher''\<rparr>"
  let ?recs = "[\<lparr>student_id = Some 101, status = ''Present''\<rparr>,
                \<lparr>student_id = Some 102, status = ''Absent''\<rparr>]"
  let ?mrecs = "[\<lparr>mr_student_id = Some 101, mr_subject = None, mr_marks = Some 81,
                  mr_semester = None, mr_recorded_by = None\<rparr>,
                 \<lparr>mr_student_id = Some 102, mr_subject = None, mr_marks = Some 64,
                  mr_semester = None, mr_recorded_by = None\<rparr>]"
  have h: "faults demo_world = []" by (simp add: demo_world_def)
  have wf: "well_formed (\<lambda>s. True) ''2024-03-05'' 7 ?recs"
    by (simp add: well_formed_def isValidDateString_def matches_ymd_def is_digit_def)
  have au: "authorized demo_world ?u 1 7"
    by (simp add: authorized_def isSelf_def demo_world_def)
  have v: "list_all (in_batch demo_world 7) ?recs"
    by (simp add: in_batch_def demo_world_def)
  have a: "status_code (fst (post_attendance (\<lambda>s. True) 1 ?u
             (att_request ''2024-03-05'' 7 ?recs) demo_world)) = 200"
    by (simp add: post_attendance_healthy[OF wf au v h] saved_def)
  have m: "status_code (fst (post_teacher_marks 1 ?u
             (marks_request None 7 ''Midterm'' (Some 100) ?mrecs) demo_world)) = 200"
    by (subst post_teacher_marks_healthy[OF h]) (simp_all add: has_student_def saved_def)
  have t: "xp_awarded 1 10 (teachers demo_world) 1 = Some \<lparr>xp = 10, level = 1, next_xp_target = 250\<rparr>"
          "xp_awarded 1 15 (teachers demo_world) 1 = Some \<lparr>xp = 15, level = 1, next_xp_target = 250\<rparr>"
    by (simp_all add: xp_awarded_def demo_world_def spec_award_def spec_level_loop.simps)
  show ?thesis
    using xp_award_is_flat[OF h, of "\<lambda>s. True" 1 ?u "att_request ''2024-03-05'' 7 ?recs"
                               "marks_request None 7 ''Midterm'' (Some 100) ?mrecs"]
          a m t h
    by simp
qed

section \<open>The count of a successful write\<close>

lemma rows_touched_fold_upsert:
  assumes kp: "\<And>old new. key old = key new \<Longrightarrow> key (f old new) = key old"
      and d: "distinct (map key T)"
  shows "rows_touched key (map key rows) (fold (upsert key f) rows T) = card (key ` set rows)"
proof -
  let ?T1 = "fold (upsert key f) rows T"
  have d1: "distinct (map key ?T1)"
    using fold_upsert_distinct[of key f T rows] kp d by simp
  have sub: "key ` set rows \<subseteq> set (map key ?T1)"
    using fold_upsert_key_set[of key f rows T] kp by auto
  have "rows_touched key (map key rows) ?T1
          = length (filter (\<lambda>k. k \<in> key ` set rows) (map key ?T1))"
    by (simp add: rows_touched_def filter_map comp_def)
  also have "\<dots> = card ({k. k \<in> key ` set rows} \<inter> set (map key ?T1))"
    by (rule distinct_length_filter[OF d1])
  also have "{k. k \<in> key ` set rows} \<inter> set (map key ?T1) = key ` set rows"
    using sub by auto
  finally show ?thesis .
qed

lemma marks_on_dup_key:
  "marks_key old = marks_key new \<Longrightarrow> marks_key (marks_on_dup old new) = marks_key old"
  by (simp add: marks_key_def marks_on_dup_def)

lemma post_teacher_marks_needs_records:
  assumes "status_code (fst (post_teacher_marks tid usr mbody w)) = 200"
  shows "\<exists>recs. mb_records mbody = Some recs \<and> p_records (buildPayload mbody) = recs"
proof (cases "mb_records mbody")
  case None
  let ?body = "mbody\<lparr>mb_records :=
                    map_option (map (\<lambda>r. r\<lparr>mr_recorded_by := Some tid\<rparr>)) (mb_records mbody)\<rparr>"
  have "status_code (fst (post_marks ?body w)) = 400 \<and> snd (post_marks ?body w) = w"
    using None by (simp add: post_marks_def buildPayload_def json_def Let_def split: option.splits)
  then have "status_code (fst (post_teacher_marks tid usr mbody w)) = 400"
    by (cases "post_marks ?body w")
       (auto simp: post_teacher_marks_def Let_def split: sum.splits prod.splits)
  with assms show ?thesis by simp
next
  case (Some recs)
  then show ?thesis by (simp add: buildPayload_def)
qed


text \<open>
  Claim C8 as stated fails. An admin sends two records for student 101 on the same date
  to an empty attendance table: the response is 200 with \<open>count = 2\<close>, and the table
  then holds one row.
\<close>

theorem count_exceeds_rows_written:
  "status_code (fst (post_attendance (\<lambda>s. True) 1 (Some \<lparr>u_id = 9, role = ''admin''\<rparr>)
       (att_request ''2024-03-05'' 7
          [\<lparr>student_id = Some 101, status = ''Present''\<rparr>,
           \<lparr>student_id = Some 101, status = ''Absent''\<rparr>])
       demo_world)) = 200 \<and>
   count (fst (post_attendance (\<lambda>s. True) 1 (Some \<lparr>u_id = 9, role = ''admin''\<rparr>)
       (att_request ''2024-03-05'' 7
          [\<lparr>student_id = Some 101, status = ''Present''\<rparr>,
           \<lparr>student_id = Some 101, status = ''Absent''\<rparr>])
       demo_world)) = Some 2 \<and>
   attendance demo_world = [] \<and>
   attendance (snd (post_attendance (\<lambda>s. True) 1 (Some \<lparr>u_id = 9, role = ''admin''\<rparr>)
       (att_request ''2024-03-05'' 7
          [\<lparr>student_id = Some 101, status = ''Present''\<rparr>,
           \<lparr>student_id = Some 101, status = ''Absent''\<rparr>])
       demo_world))
     = [\<lparr>a_student_id = 101, attendance_date = ''2024-03-05'', a_status = ''Absent'',
         a_recorded_by = Some 9\<rparr>] \<and>
   rows_touched attendance_key [(101, ''2024-03-05''), (101, ''2024-03-05'')]
     (attendance (snd (post_attendance (\<lambda>s. True) 1 (Some \<lparr>u_id = 9, role = ''admin''\<rparr>)
       (att_request ''2024-03-05'' 7
          [\<lparr>student_id = Some 101, status = ''Present''\<rparr>,
           \<lparr>student_id = Some 101, status = ''Absent''\<rparr>])
       demo_world))) = 1"
proof -
  let ?u = "Some \<lparr>u_id = 9, role = ''admin''\<rparr>"
  let ?recs = "[\<lparr>student_id = Some 101, status = ''Present''\<rparr>,
                \<lparr>student_id = Some 101, status = ''Absent''\<rparr>]"
  have h: "faults demo_world = []" by (simp add: demo_world_def)
  have wf: "well_formed (\<lambda>s. True) ''2024-03-05'' 7 ?recs"
    by (simp add: well_formed_def isValidDateString_def matches_ymd_def is_digit_def)
  have au: "authorized demo_world ?u 1 7"
    by (simp add: authorized_def isAdmin_def)
  have v: "list_all (in_batch demo_world 7) ?recs"
    by (simp add: in_batch_def demo_world_def)
  show ?thesis
    by (simp only: post_attendance_healthy[OF wf au v h])
       (simp add: saved_def att_row_def sid_of_def recorder_def attendance_key_def
                  attendance_on_dup_def rows_touched_def demo_world_def)
qed


text \<open>
  Claim C8, as amended. Every 200 response of the attendance route and of the marks
  route of the teachers router carries as \<open>count\<close> the number of records of the
  submitted array. For an accepted request on a healthy store whose table has no
  duplicate key, this is the number of rows of the table that carry a submitted key,
  provided no two records of the request name the same student.
\<close>

theorem count_is_submitted_records:
  "(status_code (fst (post_attendance dp tid usr body w)) = 200 \<longrightarrow>
      (\<exists>recs. records body = Some recs \<and>
              count (fst (post_attendance dp tid usr body w)) = Some (length recs))) \<and>
   (status_code (fst (post_teacher_marks tid usr mbody w)) = 200 \<longrightarrow>
      (\<exists>recs. mb_records mbody = Some recs \<and>
              count (fst (post_teacher_marks tid usr mbody w)) = Some (length recs))) \<and>
   (well_formed dp d b recs \<and> authorized w usr tid b \<and> list_all (in_batch w b) recs \<and>
    faults w = [] \<and> distinct (map attendance_key (attendance w)) \<and>
    distinct (map sid_of recs) \<longrightarrow>
      count (fst (post_attendance dp tid usr (att_request d b recs) w))
        = Some (rows_touched attendance_key (map (\<lambda>r. (sid_of r, d)) recs)
                  (attendance (snd (post_attendance dp tid usr (att_request d b recs) w))))) \<and>
   (b \<noteq> 0 \<and> a \<noteq> [] \<and> mrecs \<noteq> [] \<and> list_all has_student mrecs \<and>
    faults w = [] \<and> distinct (map marks_key (marks_table w)) \<and>
    distinct (map mr_sid mrecs) \<longrightarrow>
      count (fst (post_teacher_marks tid usr (marks_request dt b a mx mrecs) w))
        = Some (rows_touched marks_key (map (\<lambda>r. (mr_sid r, b, a)) mrecs)
                  (marks_table (snd (post_teacher_marks tid usr
                                       (marks_request dt b a mx mrecs) w)))))"
proof (intro conjI impI)
  assume s: "status_code (fst (post_attendance dp tid usr body w)) = 200"
  from post_attendance_200[OF s]
  obtain recs w2 where w2:
    "records body = Some recs \<and> teachers w2 = teachers w \<and>
     (faults w = [] \<longrightarrow> faults w2 = []) \<and>
     post_attendance dp tid usr body w =
                (case addTeacherXP tid XP_ATTENDANCE w2 of
                   (Inl e, w3) \<Rightarrow>
                     (saved ''Saved'' (length recs),
                      console_warn ''XP update (attendance) failed:'' w3)
                 | (Inr u, w3) \<Rightarrow> (saved ''Saved'' (length recs), w3))"
    by (elim exE) (rule that, assumption)
  then have "fst (post_attendance dp tid usr body w) = saved ''Saved'' (length recs)"
    by (cases "addTeacherXP tid XP_ATTENDANCE w2") (auto split: sum.splits)
  with w2 show "\<exists>recs. records body = Some recs \<and>
              count (fst (post_attendance dp tid usr body w)) = Some (length recs)"
    by (simp add: saved_def)
next
  assume s: "status_code (fst (post_teacher_marks tid usr mbody w)) = 200"
  from post_teacher_marks_200[OF s]
  obtain w1 where w1:
    "teachers w1 = teachers w \<and> (faults w = [] \<longrightarrow> faults w1 = []) \<and>
     post_teacher_marks tid usr mbody w =
                (case addTeacherXP tid XP_MARKS w1 of
                   (Inl e, w2) \<Rightarrow>
                     (saved ''Marks saved'' (length (p_records (buildPayload mbody))),
                      console_warn ''[XP] failed to award marks XP:'' w2)
                 | (Inr u, w2) \<Rightarrow>
                     (saved ''Marks saved'' (length (p_records (buildPayload mbody))), w2))"
    by (elim exE) (rule that, assumption)
  then have "fst (post_teacher_marks tid usr mbody w)
               = saved ''Marks saved'' (length (p_records (buildPayload mbody)))"
    by (cases "addTeacherXP tid XP_MARKS w1") (auto split: sum.splits)
  with post_teacher_marks_needs_records[OF s]
  show "\<exists>recs. mb_records mbody = Some recs \<and>
              count (fst (post_teacher_marks tid usr mbody w)) = Some (length recs)"
    by (auto simp: saved_def)
next
  assume a: "well_formed dp d b recs \<and> authorized w usr tid b \<and> list_all (in_batch w b) recs \<and>
    faults w = [] \<and> distinct (map attendance_key (attendance w)) \<and>
    distinct (map sid_of recs)"
  let ?rows = "map (att_row usr d) recs"
  have keys: "map attendance_key ?rows = map (\<lambda>r. (sid_of r, d)) recs"
    by (simp add: attendance_key_def att_row_def)
  have kp: "\<And>old new. attendance_key old = attendance_key new \<Longrightarrow>
              attendance_key (attendance_on_dup old new) = attendance_key old"
    by (simp add: attendance_on_dup_overwrites)
  have dist: "distinct (map (\<lambda>r. (sid_of r, d)) recs)"
    using a by (simp add: distinct_map inj_on_def)
  have ks: "attendance_key ` set ?rows = set (map (\<lambda>r. (sid_of r, d)) recs)"
    unfolding keys[symmetric] by (rule set_map[symmetric])
  have c: "card (attendance_key ` set ?rows) = length recs"
    using distinct_card[OF dist] by (simp only: ks length_map)
  have "rows_touched attendance_key (map attendance_key ?rows)
          (fold (upsert attendance_key attendance_on_dup) ?rows (attendance w)) = length recs"
    using rows_touched_fold_upsert[of attendance_key attendance_on_dup "attendance w" ?rows] kp a c
    by simp
  then show "count (fst (post_attendance dp tid usr (att_request d b recs) w))
        = Some (rows_touched attendance_key (map (\<lambda>r. (sid_of r, d)) recs)
                  (attendance (snd (post_attendance dp tid usr (att_request d b recs) w))))"
    using a by (simp add: post_attendance_healthy saved_def keys del: map_map)
next
  assume a: "b \<noteq> 0 \<and> a \<noteq> [] \<and> mrecs \<noteq> [] \<and> list_all has_student mrecs \<and>
    faults w = [] \<and> distinct (map marks_key (marks_table w)) \<and>
    distinct (map mr_sid mrecs)"
  let ?d = "p_date (buildPayload (marks_request dt b a mx mrecs))"
  let ?rows = "map (marks_row_of b a ?d mx) (map (\<lambda>r. r\<lparr>mr_recorded_by := Some tid\<rparr>) mrecs)"
  have keys: "map marks_key ?rows = map (\<lambda>r. (mr_sid r, b, a)) mrecs"
    by (simp add: marks_key_def marks_row_of_def mr_sid_def)
  have dist: "distinct (map (\<lambda>r. (mr_sid r, b, a)) mrecs)"
    using a by (simp add: distinct_map inj_on_def)
  have ks: "marks_key ` set ?rows = set (map (\<lambda>r. (mr_sid r, b, a)) mrecs)"
    unfolding keys[symmetric] by (rule set_map[symmetric])
  have c: "card (marks_key ` set ?rows) = length mrecs"
    using distinct_card[OF dist] by (simp only: ks length_map)
  have "rows_touched marks_key (map marks_key ?rows)
          (fold (upsert marks_key marks_on_dup) ?rows (marks_table w)) = length mrecs"
    using rows_touched_fold_upsert[of marks_key marks_on_dup "marks_table w" ?rows]
          marks_on_dup_key a c
    by simp
  then show "count (fst (post_teacher_marks tid usr (marks_request dt b a mx mrecs) w))
        = Some (rows_touched marks_key (map (\<lambda>r. (mr_sid r, b, a)) mrecs)
                  (marks_table (snd (post_teacher_marks tid usr
                                       (marks_request dt b a mx mrecs) w))))"
    using a by (simp add: post_teacher_marks_healthy saved_def keys del: map_map)
qed

theorem count_is_submitted_records_witness:
  "status_code (fst (post_attendance (\<lambda>s. True) 1 (Some \<lparr>u_id = 1, role = ''teacher''\<rparr>)
       (att_request ''2024-03-05'' 7
          [\<lparr>student_id = Some 101, status = ''Present''\<rparr>,
           \<lparr>student_id = Some 102, status = ''Absent''\<rparr>])
       demo_world)) = 200 \<and>
   count (fst (post_attendance (\<lambda>s. True) 1 (Some \<lparr>u_id = 1, role = ''teacher''\<rparr>)
       (att_request ''2024-03-05'' 7
          [\<lparr>student_id = Some 101, status = ''Present''\<rparr>,
           \<lparr>student_id = Some 102, status = ''Absent''\<rparr>])
       demo_world)) = Some 2 \<and>
   Some (rows_touched attendance_key [(101, ''2024-03-05''), (102, ''2024-03-05'')]
     (attendance (snd (post_attendance (\<lambda>s. True) 1 (Some \<lparr>u_id = 1, role = ''teacher''\<rparr>)
        (att_request ''2024-03-05'' 7
           [\<lparr>student_id = Some 101, status = ''Present''\<rparr>,
            \<lparr>student_id = Some 102, status = ''Absent''\<rparr>])
        demo_world)))) = Some 2 \<and>
   status_code (fst (post_teacher_marks 1 (Some \<lparr>u_id = 1, role = ''teacher''\<rparr>)
       (marks_request None 7 ''Midterm'' (Some 100)
          [\<lparr>mr_student_id = Some 101, mr_subject = None, mr_marks = Some 81,
            mr_semester = None, mr_recorded_by = None\<rparr>,
           \<lparr>mr_student_id = Some 102, mr_subject = None, mr_marks = Some 64,
            mr_semester = None, mr_recorded_by = None\<rparr>])
       demo_world)) = 200 \<and>
   count (fst (post_teacher_marks 1 (Some \<lparr>u_id = 1, role = ''teacher''\<rparr>)
       (marks_request None 7 ''Midterm'' (Some 100)
          [\<lparr>mr_student_id = Some 101, mr_subject = None, mr_marks = Some 81,
            mr_semester = None, mr_recorded_by = None\<rparr>,
           \<lparr>mr_student_id = Some 102, mr_subject = None, mr_marks = Some 64,
            mr_semester = None, mr_recorded_by = None\<rparr>])
       demo_world)) = Some 2 \<and>
   Some (rows_touched marks_key [(101, 7, ''Midterm''), (102, 7, ''Midterm'')]
     (marks_table (snd (post_teacher_marks 1 (Some \<lparr>u_id = 1, role = ''teacher''\<rparr>)
       (marks_request None 7 ''Midterm'' (Some 100)
          [\<lparr>mr_student_id = Some 101, mr_subject = None, mr_marks = Some 81,
            mr_semester = None, mr_recorded_by = None\<rparr>,
           \<lparr>mr_student_id = Some 102, mr_subject = None, mr_marks = Some 64,
            mr_semester = None, mr_recorded_by = None\<rparr>])
       demo_world)))) = Some 2"
proof -
  let ?u = "Some \<lparr>u_id = 1, role = ''teacher''\<rparr>"
  let ?recs = "[\<lparr>student_id = Some 101, status = ''Present''\<rparr>,
                \<lparr>student_id = Some 102, status = ''Absent''\<rparr>]"
  let ?mrecs = "[\<lparr>mr_student_id = Some 101, mr_subject = None, mr_marks = Some 81,
                  mr_semester = None, mr_recorded_by = None\<rparr>,
                 \<lparr>mr_student_id = Some 102, mr_subject = None, mr_marks = Some 64,
                  mr_semester = None, mr_recorded_by = None\<rparr>]"
  have h: "faults demo_world = []" by (simp add: demo_world_def)
  have wf: "well_formed (\<lambda>s. True) ''2024-03-05'' 7 ?recs"
    by (simp add: well_formed_def isValidDateString_def matches_ymd_def is_digit_def)
  have au: "authorized demo_world ?u 1 7"
    by (simp add: authorized_def isSelf_def demo_world_def)
  have v: "list_all (in_batch demo_world 7) ?recs"
    by (simp add: in_batch_def demo_world_def)
  have dk: "distinct (map attendance_key (attendance demo_world))"
           "distinct (map marks_key (marks_table demo_world))"
    by (simp_all add: demo_world_def)
  have ds: "distinct (map sid_of ?recs)" "distinct (map mr_sid ?mrecs)"
    by (simp_all add: sid_of_def mr_sid_def)
  have hs: "list_all has_student ?mrecs" by (simp add: has_student_def)
  have a: "status_code (fst (post_attendance (\<lambda>s. True) 1 ?u
             (att_request ''2024-03-05'' 7 ?recs) demo_world)) = 200"
    by (simp add: post_attendance_healthy[OF wf au v h] saved_def)
  have m: "status_code (fst (post_teacher_marks 1 ?u
             (marks_request None 7 ''Midterm'' (Some 100) ?mrecs) demo_world)) = 200"
    by (subst post_teacher_marks_healthy[OF h]) (simp_all add: has_student_def saved_def)
  show ?thesis
    using count_is_submitted_records
            [of "\<lambda>s. True" 1 ?u "att_request ''2024-03-05'' 7 ?recs" demo_world
                "marks_request None 7 ''Midterm'' (Some 100) ?mrecs"
                "''2024-03-05''" 7 ?recs "''Midterm''" ?mrecs None "Some 100"]
          a m h wf au v dk ds hs
    by (auto simp: sid_of_def mr_sid_def)
qed

section \<open>The marks route of the teachers router has no permission check\<close>

text \<open>
  Claim C2 at a concrete request. Teacher 2, who is neither an admin nor the teacher of
  the path and has no assignment for batch 8 (nor has teacher 1), posts marks to
  \<open>/api/teachers/1/marks\<close>: the answer is \<open>Marks saved\<close> and the row is written with
  teacher 1 as recorder. The route has no permission check.
\<close>

theorem marks_written_without_authorization:
  "\<not> isAdmin (Some \<lparr>u_id = 2, role = ''teacher''\<rparr>) \<and>
   \<not> isSelf (Some \<lparr>u_id = 2, role = ''teacher''\<rparr>) 1 \<and>
   (1, 8) \<notin> teacher_batches demo_world \<and> (2, 8) \<notin> teacher_batches demo_world \<and>
   fst (post_teacher_marks 1 (Some \<lparr>u_id = 2, role = ''teacher''\<rparr>)
       (marks_request None 8 ''Midterm'' (Some 100)
          [\<lparr>mr_student_id = Some 201, mr_subject = None, mr_marks = Some 90,
            mr_semester = None, mr_recorded_by = None\<rparr>])
       demo_world) = saved ''Marks saved'' 1 \<and>
   marks_table (snd (post_teacher_marks 1 (Some \<lparr>u_id = 2, role = ''teacher''\<rparr>)
       (marks_request None 8 ''Midterm'' (Some 100)
          [\<lparr>mr_student_id = Some 201, mr_subject = None, mr_marks = Some 90,
            mr_semester = None, mr_recorded_by = None\<rparr>])
       demo_world))
     = [\<lparr>m_student_id = 201, m_batch_id = 8, m_assessment = ''Midterm'', exam_date = None,
         subject = None, marks = Some 90, semester = None, m_recorded_by = Some 1,
         m_max_marks = Some 100\<rparr>]"
proof -
  have h: "faults demo_world = []" by (simp add: demo_world_def)
  have v: "list_all has_student
             [\<lparr>mr_student_id = Some 201, mr_subject = None, mr_marks = Some 90,
               mr_semester = None, mr_recorded_by = None\<rparr>]"
    by (simp add: has_student_def)
  have e: "post_teacher_marks 1 (Some \<lparr>u_id = 2, role = ''teacher''\<rparr>)
       (marks_request None 8 ''Midterm'' (Some 100)
          [\<lparr>mr_student_id = Some 201, mr_subject = None, mr_marks = Some 90,
            mr_semester = None, mr_recorded_by = None\<rparr>])
       demo_world =
       (saved ''Marks saved'' 1,
        demo_world\<lparr>marks_table :=
           [\<lparr>m_student_id = 201, m_batch_id = 8, m_assessment = ''Midterm'', exam_date = None,
             subject = None, marks = Some 90, semester = None, m_recorded_by = Some 1,
             m_max_marks = Some 100\<rparr>],
           teachers := xp_awarded 1 XP_MARKS (teachers demo_world)\<rparr>)"
    by (subst post_teacher_marks_healthy[OF h _ _ _ v])
       (simp_all add: marks_row_of_def mr_sid_def buildPayload_def demo_world_def)
  show ?thesis
    by (simp only: e) (simp add: isAdmin_def isSelf_def demo_world_def)
qed

end
